theory Spec2Isabelle
  imports Complex_Main
begin

section \<open>Number model and platform functions\<close>

text \<open>
  The visualizer is a React component (\<^verbatim>\<open>src/components/Visualizer.tsx\<close>, and a
  pointer-interactive copy of it with a mouse-repulsion step). Its state lives in refs
  (\<^verbatim>\<open>particlesRef\<close>, \<^verbatim>\<open>canvasRef\<close>, \<^verbatim>\<open>animationFrameRef\<close>, \<^verbatim>\<open>mousePositionRef\<close>)
  that the callbacks mutate; here every callback is a function from the state before to the
  state after.

  JavaScript numbers are modelled as mathematical reals: \<^verbatim>\<open>NaN\<close> and the infinities
  are outside the model, and so is rounding, except in the speed floor, which is given a
  second time with the rounding of doubles (\<open>speedFloorD\<close>) because what is claimed of it
  depends on the last bit. The one place of the source where \<^verbatim>\<open>NaN\<close> can arise from
  well-typed input (\<^verbatim>\<open>parseInt\<close> of a malformed colour string) returns \<open>None\<close>.
\<close>

definition atan2 :: "real \<Rightarrow> real \<Rightarrow> real" where
  \<comment> \<open>\<^verbatim>\<open>Math.atan2(y, x)\<close> on finite arguments, with \<^verbatim>\<open>atan2(0, 0) = 0\<close>.\<close>
  "atan2 b a =
     (if 0 < a then arctan (b / a)
      else if a < 0 then (if 0 \<le> b then arctan (b / a) + pi else arctan (b / a) - pi)
      else if 0 < b then pi / 2
      else if b < 0 then - (pi / 2)
      else 0)"

definition jsTrunc :: "real \<Rightarrow> int" where
  \<comment> \<open>rounding toward zero\<close>
  "jsTrunc r = (if 0 \<le> r then \<lfloor>r\<rfloor> else \<lceil>r\<rceil>)"

definition jsRem :: "real \<Rightarrow> real \<Rightarrow> real" where
  \<comment> \<open>the \<^verbatim>\<open>%\<close> operator: the remainder takes the sign of the dividend\<close>
  "jsRem a b = a - b * of_int (jsTrunc (a / b))"

section \<open>Data model\<close>

text \<open>The \<^verbatim>\<open>Particle\<close> interface; the fields carry the prefix \<open>p_\<close>.\<close>

record particle =
  p_x :: real
  p_y :: real
  p_vx :: real
  p_vy :: real
  p_size :: real
  p_hue :: real
  p_saturation :: real
  p_brightness :: real

text \<open>
  The \<^verbatim>\<open>effects\<close> state object. The two repulsion fields exist in the
  pointer-interactive file only. The mode fields are strings in the source and every
  \<^verbatim>\<open>switch\<close> over them has a default branch.
\<close>

record effects =
  colorMode :: string
  particleShape :: string
  lineStyle :: string
  trailLength :: real
  particleSize :: real
  connectionDistance :: real
  glowEffect :: bool
  glowIntensity :: real
  mouseRepulsion :: real
  mouseForce :: real

text \<open>
  What a render of the component closes over: the four pieces of React state, and which of
  the two files is meant (\<open>interactive\<close> for the one with pointer repulsion).
\<close>

record props =
  particleCount :: int
  lineWidth :: real
  particleColor :: string
  effects :: effects
  interactive :: bool

subsection \<open>The drawing surface\<close>

text \<open>
  CSS colour strings built by the source (\<^verbatim>\<open>rgba(...)\<close>, \<^verbatim>\<open>hsl(...)\<close>) and what
  \<^verbatim>\<open>fillStyle\<close>/\<^verbatim>\<open>strokeStyle\<close> can hold.
\<close>

datatype css = Rgba real real real real | Hsl real real real

datatype paint = Colour css | LinearGradient real real real real "(real \<times> css) list"

datatype path =
    Rect real real real real
  | Polyline "(real \<times> real) list"
  | Arc real real real real real

record style =
  fillStyle :: paint
  strokeStyle :: paint
  shadowColor :: css
  shadowBlur :: real
  lineDash :: "real list"
  ctxLineWidth :: real

text \<open>A painting operation, with the context settings in force when it was issued.\<close>

datatype op = FillRect real real real real style | Fill path style | Stroke path style

record ctx =
  settings :: style
  frame :: "op list"

record canvas =
  width :: nat
  height :: nat
  context2d :: "ctx option"

text \<open>
  The refs of the component and the part of the browser it talks to: the window size, the
  queue of requested animation frames, and the values \<^verbatim>\<open>Math.random\<close> is going to
  return (\<open>randoms\<close>, of which \<open>drawn\<close> have been consumed).
\<close>

record world =
  canvasRef :: "canvas option"
  particlesRef :: "particle list"
  animationFrameRef :: nat
  mousePositionRef :: "real \<times> real"
  innerWidth :: nat
  innerHeight :: nat
  pending :: "nat list"
  nextHandle :: nat
  randoms :: "nat \<Rightarrow> real"
  drawn :: nat

section \<open>Simulation: the kinematics of one particle in \<^verbatim>\<open>draw\<close>\<close>

definition repulse :: "props \<Rightarrow> real \<times> real \<Rightarrow> particle \<Rightarrow> particle" where
  \<comment> \<open>"Apply mouse repulsion force" (pointer-interactive file only)\<close>
  "repulse pr mouse p =
     (let dx = p_x p - fst mouse;
          dy = p_y p - snd mouse;
          distance = sqrt (dx * dx + dy * dy)
      in if distance < mouseRepulsion (effects pr) then
           (let force = (mouseRepulsion (effects pr) - distance) / mouseRepulsion (effects pr);
                angle = atan2 dy dx
            in p\<lparr>p_vx := p_vx p + cos angle * force * mouseForce (effects pr),
                 p_vy := p_vy p + sin angle * force * mouseForce (effects pr)\<rparr>)
         else p)"

definition baseSpeed :: real where
  "baseSpeed = 1"

definition speed :: "particle \<Rightarrow> real" where
  "speed p = sqrt (p_vx p * p_vx p + p_vy p * p_vy p)"

definition speedFloor :: "particle \<Rightarrow> particle" where
  \<comment> \<open>"Maintain constant base movement", in exact arithmetic; \<open>speedFloorD\<close> below is
      the same step with the rounding of doubles\<close>
  "speedFloor p =
     (let angle = atan2 (p_vy p) (p_vx p)
      in if speed p < baseSpeed then
           p\<lparr>p_vx := cos angle * baseSpeed, p_vy := sin angle * baseSpeed\<rparr>
         else p)"

definition integrate :: "particle \<Rightarrow> particle" where
  \<comment> \<open>"Update position"\<close>
  "integrate p = p\<lparr>p_x := p_x p + p_vx p, p_y := p_y p + p_vy p\<rparr>"

definition bounceX :: "canvas \<Rightarrow> particle \<Rightarrow> particle" where
  "bounceX c p =
     (if p_x p < 0 then p\<lparr>p_x := 0, p_vx := \<bar>p_vx p\<bar>\<rparr>
      else if p_x p > real (width c) then p\<lparr>p_x := real (width c), p_vx := - \<bar>p_vx p\<bar>\<rparr>
      else p)"

definition bounceY :: "canvas \<Rightarrow> particle \<Rightarrow> particle" where
  "bounceY c p =
     (if p_y p < 0 then p\<lparr>p_y := 0, p_vy := \<bar>p_vy p\<bar>\<rparr>
      else if p_y p > real (height c) then p\<lparr>p_y := real (height c), p_vy := - \<bar>p_vy p\<bar>\<rparr>
      else p)"

definition bounce :: "canvas \<Rightarrow> particle \<Rightarrow> particle" where
  \<comment> \<open>"Bounce off walls with energy preservation"\<close>
  "bounce c p = bounceY c (bounceX c p)"

definition stepParticle :: "props \<Rightarrow> canvas \<Rightarrow> real \<times> real \<Rightarrow> particle \<Rightarrow> particle" where
  \<comment> \<open>the loop body of \<^verbatim>\<open>draw\<close> up to the call of \<^verbatim>\<open>drawParticle\<close>\<close>
  "stepParticle pr c mouse p =
     bounce c (integrate (speedFloor (if interactive pr then repulse pr mouse p else p)))"

section \<open>The speed floor in double precision\<close>

text \<open>
  The numbers of the program are IEEE 754 doubles. \<open>fl\<close> rounds a real to the nearest
  double, ties to the even significand (53 bits); overflow and subnormal numbers are left
  out. Products, sums and \<^verbatim>\<open>Math.sqrt\<close> are the exact result rounded once.
  \<^verbatim>\<open>Math.atan2\<close>, \<^verbatim>\<open>Math.cos\<close> and \<^verbatim>\<open>Math.sin\<close> are approximations that the
  engine chooses, so they are parameters of the step.
\<close>

definition roundHalfEven :: "real \<Rightarrow> int" where
  "roundHalfEven r =
     (let f = \<lfloor>r\<rfloor>
      in if r - of_int f < 1 / 2 then f
         else if 1 / 2 < r - of_int f then f + 1
         else if even f then f else f + 1)"

definition fl :: "real \<Rightarrow> real" where
  "fl a =
     (if a = 0 then 0
      else (let u = 2 powr (of_int \<lfloor>log 2 \<bar>a\<bar>\<rfloor> - 52)
            in u * of_int (roundHalfEven (a / u))))"

record platform =
  mathAtan2 :: "real \<Rightarrow> real \<Rightarrow> real"
  mathCos :: "real \<Rightarrow> real"
  mathSin :: "real \<Rightarrow> real"

definition speedD :: "particle \<Rightarrow> real" where
  \<comment> \<open>\<^verbatim>\<open>Math.sqrt(p.vx * p.vx + p.vy * p.vy)\<close>\<close>
  "speedD p = fl (sqrt (fl (fl (p_vx p * p_vx p) + fl (p_vy p * p_vy p))))"

definition speedFloorD :: "platform \<Rightarrow> particle \<Rightarrow> particle" where
  \<comment> \<open>"Maintain constant base movement", as the program computes it\<close>
  "speedFloorD mth p =
     (let angle = mathAtan2 mth (p_vy p) (p_vx p)
      in if speedD p < baseSpeed then
           p\<lparr>p_vx := fl (mathCos mth angle * baseSpeed),
             p_vy := fl (mathSin mth angle * baseSpeed)\<rparr>
         else p)"

section \<open>Rendering\<close>

definition getParticleColor :: "props \<Rightarrow> particle \<Rightarrow> css \<times> particle" where
  \<comment> \<open>returns the colour string and the particle as the call leaves it\<close>
  "getParticleColor pr particle =
     (if colorMode (effects pr) = ''rainbow'' then
        (let particle' = particle\<lparr>p_hue := jsRem (p_hue particle + 1) 360\<rparr>
         in (Hsl (p_hue particle') 100 50, particle'))
      else (Hsl (p_hue particle) (p_saturation particle) (p_brightness particle), particle))"

definition particlePath :: "props \<Rightarrow> particle \<Rightarrow> path" where
  \<comment> \<open>the \<^verbatim>\<open>switch (effects.particleShape)\<close> of \<^verbatim>\<open>drawParticle\<close>\<close>
  "particlePath pr particle =
     (let size = p_size particle
      in if particleShape (effects pr) = ''square'' then
           Rect (p_x particle - size) (p_y particle - size) (size * 2) (size * 2)
         else if particleShape (effects pr) = ''triangle'' then
           Polyline [(p_x particle, p_y particle - size),
                     (p_x particle + size, p_y particle + size),
                     (p_x particle - size, p_y particle + size)]
         else Arc (p_x particle) (p_y particle) size 0 (pi * 2))"

definition drawParticle :: "props \<Rightarrow> ctx \<Rightarrow> particle \<Rightarrow> ctx \<times> particle" where
  "drawParticle pr c particle =
     (let (color, particle') = getParticleColor pr particle;
          s1 = (settings c)\<lparr>fillStyle := Colour color\<rparr>;
          s2 = (if glowEffect (effects pr)
                then s1\<lparr>shadowColor := color, shadowBlur := glowIntensity (effects pr) * 20\<rparr>
                else s1);
          painted = frame c @ [Fill (particlePath pr particle') s2];
          s3 = (if glowEffect (effects pr) then s2\<lparr>shadowBlur := 0\<rparr> else s2)
      in (\<lparr>settings = s3, frame = painted\<rparr>, particle'))"

definition segment :: "particle \<Rightarrow> particle \<Rightarrow> path" where
  \<comment> \<open>\<^verbatim>\<open>ctx.moveTo(p1.x, p1.y); ctx.lineTo(p2.x, p2.y)\<close>\<close>
  "segment p1 p2 = Polyline [(p_x p1, p_y p1), (p_x p2, p_y p2)]"

definition drawLine :: "props \<Rightarrow> ctx \<Rightarrow> particle \<Rightarrow> particle \<Rightarrow> real \<Rightarrow> ctx \<times> particle \<times> particle" where
  \<comment> \<open>the non-interactive file passes the distance as well and never reads it\<close>
  "drawLine pr c p1 p2 opacity =
     (let s1 = (settings c)\<lparr>lineDash := (if lineStyle (effects pr) = ''dashed'' then [5, 5] else [])\<rparr>;
          s2 = s1\<lparr>ctxLineWidth := lineWidth pr\<rparr>
      in if lineStyle (effects pr) = ''gradient'' then
           (let (color1, p1') = getParticleColor pr p1;
                (color2, p2') = getParticleColor pr p2;
                s3 = s2\<lparr>strokeStyle :=
                       LinearGradient (p_x p1) (p_y p1) (p_x p2) (p_y p2) [(0, color1), (1, color2)]\<rparr>
            in (\<lparr>settings = s3, frame = frame c @ [Stroke (segment p1 p2) s3]\<rparr>, p1', p2'))
         else
           (let s3 = s2\<lparr>strokeStyle := Colour (Rgba 255 255 255 opacity)\<rparr>
            in (\<lparr>settings = s3, frame = frame c @ [Stroke (segment p1 p2) s3]\<rparr>, p1, p2)))"

definition distance :: "particle \<Rightarrow> particle \<Rightarrow> real" where
  "distance p p2 =
     (let dx = p_x p - p_x p2; dy = p_y p - p_y p2 in sqrt (dx * dx + dy * dy))"

definition lineOpacity :: "props \<Rightarrow> real \<Rightarrow> real" where
  \<comment> \<open>"Calculate opacity based on distance (fade out as distance increases)"\<close>
  "lineOpacity pr d = 0.2 * (1 - d / connectionDistance (effects pr))"

text \<open>
  The inner loop over \<open>j = i + 1, ...\<close>: \<open>p\<close> is \<open>particles[i]\<close> and the list holds
  \<open>particles[i + 1 ..]\<close> as they are when the loop starts. Both come back as the loop leaves
  them (a gradient line in rainbow mode advances the hue of its two ends).
\<close>

fun connect :: "props \<Rightarrow> ctx \<Rightarrow> particle \<Rightarrow> particle list \<Rightarrow> ctx \<times> particle \<times> particle list" where
  "connect pr c p [] = (c, p, [])"
| "connect pr c p (p2 # rest) =
     (if distance p p2 < connectionDistance (effects pr) then
        (case drawLine pr c p p2 (lineOpacity pr (distance p p2)) of
           (c', p', p2') \<Rightarrow>
             (case connect pr c' p' rest of (c'', p'', rest') \<Rightarrow> (c'', p'', p2' # rest')))
      else
        (case connect pr c p rest of (c'', p'', rest') \<Rightarrow> (c'', p'', p2 # rest')))"

text \<open>
  The outer loop "Update and draw particles": the list holds \<open>particles[i ..]\<close>. Particle
  \<open>i\<close> is advanced, painted and connected to the later particles, which have not been
  advanced yet in this call.
\<close>

lemma connect_length: "connect pr c p rest = (c', p', rest') \<Longrightarrow> length rest' = length rest"
  by (induction rest arbitrary: c p c' p' rest') (auto split: if_splits prod.splits)

function drawLoop :: "props \<Rightarrow> canvas \<Rightarrow> real \<times> real \<Rightarrow> ctx \<Rightarrow> particle list \<Rightarrow> ctx \<times> particle list" where
  "drawLoop pr cv mouse c [] = (c, [])"
| "drawLoop pr cv mouse c (p # rest) =
     (case drawParticle pr c (stepParticle pr cv mouse p) of
        (c1, p1) \<Rightarrow>
          (case connect pr c1 p1 rest of
             (c2, p2, rest') \<Rightarrow>
               (case drawLoop pr cv mouse c2 rest' of (c3, rest'') \<Rightarrow> (c3, p2 # rest''))))"
  by pat_completeness auto
termination
  by (relation "measure (\<lambda>(pr, cv, mouse, c, ps). length ps)")
     (auto dest: connect_length [OF sym])

definition fillRect :: "ctx \<Rightarrow> real \<Rightarrow> real \<Rightarrow> real \<Rightarrow> real \<Rightarrow> ctx" where
  "fillRect c a b w h = c\<lparr>frame := frame c @ [FillRect a b w h (settings c)]\<rparr>"

definition requestAnimationFrame :: "world \<Rightarrow> world" where
  \<comment> \<open>\<^verbatim>\<open>animationFrameRef.current = requestAnimationFrame(draw)\<close>\<close>
  "requestAnimationFrame w =
     w\<lparr>pending := pending w @ [nextHandle w],
       animationFrameRef := nextHandle w,
       nextHandle := Suc (nextHandle w)\<rparr>"

definition getContext2d :: "world \<Rightarrow> (canvas \<times> ctx) option" where
  \<comment> \<open>\<^verbatim>\<open>canvasRef.current\<close> with \<^verbatim>\<open>canvas?.getContext('2d')\<close>; \<open>None\<close> when either is missing\<close>
  "getContext2d w =
     (case canvasRef w of
        None \<Rightarrow> None
      | Some cv \<Rightarrow> (case context2d cv of None \<Rightarrow> None | Some c \<Rightarrow> Some (cv, c)))"

definition draw :: "props \<Rightarrow> world \<Rightarrow> world" where
  "draw pr w =
     (case getContext2d w of
        None \<Rightarrow> w
      | Some (cv, c) \<Rightarrow>
          (let c0 = c\<lparr>settings := (settings c)\<lparr>fillStyle :=
                         Colour (Rgba 0 0 0 (1 - trailLength (effects pr)))\<rparr>\<rparr>;
               c1 = fillRect c0 0 0 (real (width cv)) (real (height cv))
           in if particlesRef w = [] then
                w\<lparr>canvasRef := Some (cv\<lparr>context2d := Some c1\<rparr>)\<rparr>
              else
                (case drawLoop pr cv (mousePositionRef w) c1 (particlesRef w) of
                   (c2, particles) \<Rightarrow>
                     requestAnimationFrame
                       (w\<lparr>canvasRef := Some (cv\<lparr>context2d := Some c2\<rparr>),
                          particlesRef := particles\<rparr>))))"

text \<open>
  The browser's side of \<^verbatim>\<open>requestAnimationFrame\<close>: at a frame it takes the callbacks
  requested so far and runs each of them once. Every callback the component requests is
  \<^verbatim>\<open>draw\<close>.
\<close>

definition runFrame :: "props \<Rightarrow> world \<Rightarrow> world" where
  "runFrame pr w = fold (\<lambda>_. draw pr) (pending w) (w\<lparr>pending := []\<rparr>)"

section \<open>Creating particles: the initialising effect\<close>

definition createParticle :: "props \<Rightarrow> world \<Rightarrow> nat \<Rightarrow> particle" where
  \<comment> \<open>\<open>k\<close> is the number of \<^verbatim>\<open>Math.random\<close> values consumed before the call; it takes five\<close>
  "createParticle pr w k =
     \<lparr>p_x = randoms w k * real (innerWidth w),
      p_y = randoms w (k + 1) * real (innerHeight w),
      p_vx = (randoms w (k + 2) - 0.5) * 2,
      p_vy = (randoms w (k + 3) - 0.5) * 2,
      p_size = particleSize (effects pr),
      p_hue = randoms w (k + 4) * 360,
      p_saturation = 100,
      p_brightness = 100\<rparr>"

fun arrayFrom :: "nat \<Rightarrow> (nat \<Rightarrow> particle) \<Rightarrow> nat \<Rightarrow> particle list" where
  \<comment> \<open>\<^verbatim>\<open>Array.from({ length: n }, createParticle)\<close>: \<open>n\<close> calls, one after the other\<close>
  "arrayFrom 0 mk k = []"
| "arrayFrom (Suc n) mk k = mk k # arrayFrom n mk (k + 5)"

definition defaultStyle :: style where
  \<comment> \<open>the state of a 2D context after a reset\<close>
  "defaultStyle =
     \<lparr>fillStyle = Colour (Rgba 0 0 0 1), strokeStyle = Colour (Rgba 0 0 0 1),
      shadowColor = Rgba 0 0 0 0, shadowBlur = 0, lineDash = [], ctxLineWidth = 1\<rparr>"

definition setCanvasSize :: "nat \<Rightarrow> nat \<Rightarrow> canvas \<Rightarrow> canvas" where
  \<comment> \<open>assigning \<^verbatim>\<open>canvas.width\<close>/\<^verbatim>\<open>canvas.height\<close> clears the bitmap and resets the context\<close>
  "setCanvasSize wd ht cv =
     cv\<lparr>width := wd, height := ht,
        context2d := map_option (\<lambda>_. \<lparr>settings = defaultStyle, frame = []\<rparr>) (context2d cv)\<rparr>"

definition initEffect :: "props \<Rightarrow> world \<Rightarrow> world" where
  \<comment> \<open>"Initialize canvas and start animation"; \<^verbatim>\<open>ToLength\<close> takes a negative length to 0\<close>
  "initEffect pr w =
     (case canvasRef w of
        None \<Rightarrow> w
      | Some cv \<Rightarrow>
          (let n = nat (particleCount pr)
           in requestAnimationFrame
                (w\<lparr>canvasRef := Some (setCanvasSize (innerWidth w) (innerHeight w) cv),
                   particlesRef := arrayFrom n (createParticle pr w) (drawn w),
                   drawn := drawn w + 5 * n\<rparr>)))"

definition cleanupEffect :: "world \<Rightarrow> world" where
  \<comment> \<open>the effect's cleanup: \<^verbatim>\<open>cancelAnimationFrame\<close> of the stored handle, unless it is 0\<close>
  "cleanupEffect w =
     (if animationFrameRef w \<noteq> 0
      then w\<lparr>pending := removeAll (animationFrameRef w) (pending w)\<rparr>
      else w)"

definition reconfigure :: "props \<Rightarrow> world \<Rightarrow> world" where
  \<comment> \<open>a change of one of the effect's dependencies (\<^verbatim>\<open>particleCount\<close> is the first):
      React runs the cleanup of the previous run, then the effect with the new values\<close>
  "reconfigure pr w = initEffect pr (cleanupEffect w)"

definition handleMouseMove :: "real \<times> real \<Rightarrow> real \<times> real \<Rightarrow> world \<Rightarrow> world" where
  \<comment> \<open>pointer-interactive file: client coordinates less the canvas rectangle's corner\<close>
  "handleMouseMove client corner w =
     w\<lparr>mousePositionRef := (fst client - fst corner, snd client - snd corner)\<rparr>"

section \<open>Colours: the re-seeding effect\<close>

definition hexDigit :: "char \<Rightarrow> nat option" where
  "hexDigit ch =
     (let n = (of_char ch :: nat)
      in if 48 \<le> n \<and> n \<le> 57 then Some (n - 48)
         else if 97 \<le> n \<and> n \<le> 102 then Some (n - 87)
         else if 65 \<le> n \<and> n \<le> 70 then Some (n - 55)
         else None)"

fun hexPrefix :: "nat option \<Rightarrow> string \<Rightarrow> nat option" where
  \<comment> \<open>the value of the longest prefix of hexadecimal digits; \<open>None\<close> when there is none\<close>
  "hexPrefix acc [] = acc"
| "hexPrefix acc (ch # cs) =
     (case hexDigit ch of
        None \<Rightarrow> acc
      | Some d \<Rightarrow> hexPrefix (Some (16 * (case acc of None \<Rightarrow> 0 | Some a \<Rightarrow> a) + d)) cs)"

definition isWhiteSpace :: "char \<Rightarrow> bool" where
  \<comment> \<open>the white space of ASCII; a \<open>string\<close> here is a list of bytes, so the other
      Unicode white space that \<^verbatim>\<open>parseInt\<close> skips (U+00A0 and beyond) has no
      counterpart, and the colour input produces none of it\<close>
  "isWhiteSpace ch = ((of_char ch :: nat) \<in> {9, 10, 11, 12, 13, 32})"

definition parseInt16 :: "string \<Rightarrow> int option" where
  \<comment> \<open>\<^verbatim>\<open>parseInt(s, 16)\<close>: leading white space, a sign, an optional \<^verbatim>\<open>0x\<close>, then the
      digits; \<open>None\<close> is \<^verbatim>\<open>NaN\<close>\<close>
  "parseInt16 s =
     (let s1 = dropWhile isWhiteSpace s;
          negative = (case s1 of [] \<Rightarrow> False | ch # _ \<Rightarrow> ch = CHR ''-'');
          s2 = (case s1 of [] \<Rightarrow> [] | ch # cs \<Rightarrow> if ch = CHR ''-'' \<or> ch = CHR ''+'' then cs else s1);
          s3 = (if take 2 s2 = ''0x'' \<or> take 2 s2 = ''0X'' then drop 2 s2 else s2)
      in map_option (\<lambda>n. if negative then - int n else int n) (hexPrefix None s3))"

definition slice :: "nat \<Rightarrow> nat \<Rightarrow> string \<Rightarrow> string" where
  \<comment> \<open>\<^verbatim>\<open>s.slice(a, b)\<close> for indices that are not negative\<close>
  "slice a b s = take (b - a) (drop a s)"

definition rgbToHsl :: "real \<Rightarrow> real \<Rightarrow> real \<Rightarrow> real \<times> real \<times> real" where
  \<comment> \<open>from the channels in \<open>[0, 1]\<close> to what is stored as hue, saturation and brightness;
      the \<^verbatim>\<open>switch (max)\<close> takes the first case that is equal and has no default\<close>
  "rgbToHsl r g b =
     (let mx = max r (max g b);
          mn = min r (min g b);
          l = (mx + mn) / 2
      in if mx \<noteq> mn then
           (let d = mx - mn;
                s = (if l > 0.5 then d / (2 - mx - mn) else d / (mx + mn));
                h = (if mx = r then (g - b) / d + (if g < b then 6 else 0)
                     else if mx = g then (b - r) / d + 2
                     else if mx = b then (r - g) / d + 4
                     else 0)
            in (h * 60, s * 100, l * 100))
         else (0, 0 * 100, l * 100))"

definition solidColor :: "string \<Rightarrow> (real \<times> real \<times> real) option" where
  \<comment> \<open>"Convert hex to HSL for consistent color handling"; \<open>None\<close> when a channel is \<^verbatim>\<open>NaN\<close>\<close>
  "solidColor hex =
     (case (parseInt16 (slice 1 3 hex),
            parseInt16 (slice 3 5 hex),
            parseInt16 (slice 5 7 hex)) of
        (Some r, Some g, Some b) \<Rightarrow>
          Some (rgbToHsl (real_of_int r / 255) (real_of_int g / 255) (real_of_int b / 255))
      | _ \<Rightarrow> None)"

definition reseed :: "props \<Rightarrow> real \<Rightarrow> particle \<Rightarrow> particle option" where
  \<comment> \<open>the body of the \<^verbatim>\<open>forEach\<close> in "Update particles when effects change"; \<open>rand\<close> is
      the value \<^verbatim>\<open>Math.random\<close> returns if it is called\<close>
  "reseed pr rand particle =
     (let particle1 = particle\<lparr>p_size := particleSize (effects pr)\<rparr>
      in if colorMode (effects pr) = ''rainbow'' then
           Some (particle1\<lparr>p_hue := rand * 360, p_saturation := 100, p_brightness := 50\<rparr>)
         else if colorMode (effects pr) = ''solid'' then
           map_option (\<lambda>(h, s, l). particle1\<lparr>p_hue := h, p_saturation := s, p_brightness := l\<rparr>)
             (solidColor (particleColor pr))
         else Some particle1)"

section \<open>The specification's reading, for comparison\<close>

definition spec_rgbToHsl :: "real \<Rightarrow> real \<Rightarrow> real \<Rightarrow> real \<times> real \<times> real" where
  \<comment> \<open>the RGB to HSL formula as the specification words it, in degrees and percent\<close>
  "spec_rgbToHsl r g b =
     (let mx = Max {r, g, b}; mn = Min {r, g, b}; l = (mx + mn) / 2
      in if mx = mn then (0, 0, 100 * l)
         else
           (let d = mx - mn;
                saturation = (if l > 0.5 then d / (2 - mx - mn) else d / (mx + mn));
                sextant = (if mx = r then (if g < b then (g - b) / d + 6 else (g - b) / d)
                           else if mx = g then (b - r) / d + 2
                           else (r - g) / d + 4)
            in (60 * sextant, 100 * saturation, 100 * l)))"

text \<open>
  "Simulate-then-render": the Simulation Engine advances every particle, and only then the
  Render Engine paints each particle and its connections to the later ones.
\<close>

function spec_render :: "props \<Rightarrow> ctx \<Rightarrow> particle list \<Rightarrow> ctx \<times> particle list" where
  "spec_render pr c [] = (c, [])"
| "spec_render pr c (p # rest) =
     (case drawParticle pr c p of
        (c1, p1) \<Rightarrow>
          (case connect pr c1 p1 rest of
             (c2, p2, rest') \<Rightarrow>
               (case spec_render pr c2 rest' of (c3, rest'') \<Rightarrow> (c3, p2 # rest''))))"
  by pat_completeness auto
termination
  by (relation "measure (\<lambda>(pr, c, ps). length ps)")
     (auto dest: connect_length [OF sym])

definition spec_simulateThenRender ::
    "props \<Rightarrow> canvas \<Rightarrow> real \<times> real \<Rightarrow> ctx \<Rightarrow> particle list \<Rightarrow> ctx \<times> particle list" where
  "spec_simulateThenRender pr cv mouse c ps = spec_render pr c (map (stepParticle pr cv mouse) ps)"

section \<open>Observations on states and frames\<close>

definition kinematics :: "particle \<Rightarrow> real \<times> real \<times> real \<times> real" where
  "kinematics p = (p_x p, p_y p, p_vx p, p_vy p)"

definition inside :: "canvas \<Rightarrow> particle \<Rightarrow> bool" where
  "inside cv p = (0 \<le> p_x p \<and> p_x p \<le> real (width cv) \<and> 0 \<le> p_y p \<and> p_y p \<le> real (height cv))"

definition bare :: "particle \<Rightarrow> particle" where
  \<comment> \<open>a particle with its hue forgotten: what colour resolution cannot change\<close>
  "bare p = p\<lparr>p_hue := 0\<rparr>"

fun filled :: "op \<Rightarrow> path list" where
  "filled (Fill pth st) = [pth]"
| "filled _ = []"

fun stroked :: "op \<Rightarrow> (path \<times> paint) list" where
  "stroked (Stroke pth st) = [(pth, strokeStyle st)]"
| "stroked _ = []"

definition fillPaths :: "op list \<Rightarrow> path list" where
  \<comment> \<open>the particle shapes of a frame, in painting order\<close>
  "fillPaths ops = concat (map filled ops)"

definition strokes :: "op list \<Rightarrow> (path \<times> paint) list" where
  \<comment> \<open>the connection lines of a frame with their stroke paint, in painting order\<close>
  "strokes ops = concat (map stroked ops)"

primrec visited :: "(particle \<Rightarrow> particle) \<Rightarrow> particle list \<Rightarrow> (particle \<times> particle) list" where
  \<comment> \<open>every pair \<open>i < j\<close> in loop order: particle \<open>i\<close> after \<open>f\<close>, particle \<open>j\<close> as it is\<close>
  "visited f [] = []"
| "visited f (p # rest) = map (Pair (f p)) rest @ visited f rest"

definition connections :: "props \<Rightarrow> (particle \<times> particle) list \<Rightarrow> path list" where
  \<comment> \<open>the segments of the pairs that are closer than the connection distance\<close>
  "connections pr pairs =
     map (\<lambda>(a, b). segment a b)
       (filter (\<lambda>(a, b). distance a b < connectionDistance (effects pr)) pairs)"

section \<open>Example states\<close>

definition initialEffects :: effects where
  \<comment> \<open>the initial value of the \<^verbatim>\<open>effects\<close> state\<close>
  "initialEffects =
     \<lparr>colorMode = ''solid'', particleShape = ''circle'', lineStyle = ''solid'',
      trailLength = 0.1, particleSize = 2, connectionDistance = 200, glowEffect = False,
      glowIntensity = 0.5, mouseRepulsion = 80, mouseForce = 3\<rparr>"

definition initialProps :: props where
  \<comment> \<open>the initial React state of the pointer-interactive file\<close>
  "initialProps =
     \<lparr>particleCount = 100, lineWidth = 2, particleColor = ''#ffffff'',
      effects = initialEffects, interactive = True\<rparr>"

definition plainProps :: props where
  \<comment> \<open>the initial React state of the file without pointer repulsion\<close>
  "plainProps = initialProps\<lparr>interactive := False\<rparr>"

definition resizedProps :: props where
  \<comment> \<open>the particle-count slider moved from 100 to 150\<close>
  "resizedProps = initialProps\<lparr>particleCount := 150\<rparr>"

definition rainbowProps :: props where
  "rainbowProps = initialProps\<lparr>effects := initialEffects\<lparr>colorMode := ''rainbow''\<rparr>\<rparr>"

definition gradientProps :: props where
  "gradientProps = initialProps\<lparr>effects := initialEffects\<lparr>lineStyle := ''gradient''\<rparr>\<rparr>"

definition slowParticle :: particle where
  "slowParticle =
     \<lparr>p_x = 10, p_y = 20, p_vx = 0.3, p_vy = 0.4, p_size = 2, p_hue = 359.5,
      p_saturation = 100, p_brightness = 100\<rparr>"

definition fastParticle :: particle where
  "fastParticle =
     \<lparr>p_x = 3, p_y = 4, p_vx = 3, p_vy = 4, p_size = 2, p_hue = 120,
      p_saturation = 100, p_brightness = 100\<rparr>"

definition rightParticle :: particle where
  "rightParticle =
     \<lparr>p_x = 205, p_y = 8, p_vx = 5, p_vy = 0, p_size = 2, p_hue = 240,
      p_saturation = 100, p_brightness = 100\<rparr>"

definition nearParticle :: particle where
  \<comment> \<open>at distance 5 from \<open>fastParticle\<close>\<close>
  "nearParticle =
     \<lparr>p_x = 6, p_y = 8, p_vx = 1, p_vy = 0, p_size = 2, p_hue = 0,
      p_saturation = 0, p_brightness = 100\<rparr>"

definition farParticle :: particle where
  \<comment> \<open>at distance 300 from \<open>fastParticle\<close>\<close>
  "farParticle =
     \<lparr>p_x = 303, p_y = 4, p_vx = 0, p_vy = 1, p_size = 2, p_hue = 0,
      p_saturation = 0, p_brightness = 100\<rparr>"

definition strayParticle :: particle where
  \<comment> \<open>about to leave the canvas of 1000 by 1000 at its lower right corner\<close>
  "strayParticle =
     \<lparr>p_x = 999, p_y = 998, p_vx = 3, p_vy = 4, p_size = 2, p_hue = 0,
      p_saturation = 100, p_brightness = 100\<rparr>"

definition tinyParticle :: particle where
  \<comment> \<open>velocity \<open>(0.00390625, 0.01171875)\<close>, both exact doubles\<close>
  "tinyParticle =
     \<lparr>p_x = 10, p_y = 20, p_vx = 1 / 256, p_vy = 3 / 256, p_size = 2, p_hue = 0,
      p_saturation = 100, p_brightness = 100\<rparr>"

definition engineAngle :: real where
  \<comment> \<open>\<^verbatim>\<open>Math.atan2(0.01171875, 0.00390625)\<close> = 1.2490457723982544\<close>
  "engineAngle = 175787564848171 / 2 ^ 47"

definition engineCos :: real where
  \<comment> \<open>\<^verbatim>\<open>Math.cos(1.2490457723982544)\<close> = 0.31622776601683794\<close>
  "engineCos = 5696652996790543 / 2 ^ 54"

definition engineSin :: real where
  \<comment> \<open>\<^verbatim>\<open>Math.sin(1.2490457723982544)\<close> = 0.9486832980505138\<close>
  "engineSin = 4272489747592907 / 2 ^ 52"

definition engineMath :: platform where
  \<comment> \<open>an engine with these three results, and the correctly rounded value elsewhere\<close>
  "engineMath =
     \<lparr>mathAtan2 = (\<lambda>b a. if b = 3 / 256 \<and> a = 1 / 256 then engineAngle else fl (atan2 b a)),
      mathCos = (\<lambda>a. if a = engineAngle then engineCos else fl (cos a)),
      mathSin = (\<lambda>a. if a = engineAngle then engineSin else fl (sin a))\<rparr>"

definition blankCtx :: ctx where
  "blankCtx = \<lparr>settings = defaultStyle, frame = []\<rparr>"

definition readyCanvas :: canvas where
  "readyCanvas = \<lparr>width = 1000, height = 1000, context2d = Some blankCtx\<rparr>"

definition lostCanvas :: canvas where
  \<comment> \<open>a canvas whose \<^verbatim>\<open>getContext('2d')\<close> returns \<^verbatim>\<open>null\<close>\<close>
  "lostCanvas = \<lparr>width = 1000, height = 1000, context2d = None\<rparr>"

definition halves :: "nat \<Rightarrow> real" where
  "halves k = 1 / 2"

definition runningWorld :: "canvas \<Rightarrow> particle list \<Rightarrow> world" where
  \<comment> \<open>a mounted component with one frame requested\<close>
  "runningWorld cv ps =
     \<lparr>canvasRef = Some cv, particlesRef = ps, animationFrameRef = 1, mousePositionRef = (0, 0),
      innerWidth = 1000, innerHeight = 1000, pending = [1], nextHandle = 2,
      randoms = halves, drawn = 0\<rparr>"

section \<open>Arithmetic of the platform functions\<close>

lemma sqrt_quotient: "a \<noteq> 0 \<Longrightarrow> sqrt (1 + (b / a)\<^sup>2) = sqrt (a * a + b * b) / \<bar>a\<bar>" for a b :: real
proof -
  assume a: "a \<noteq> 0"
  have "1 + (b / a)\<^sup>2 = (a * a + b * b) / (a * a)"
    using a by (simp add: power2_eq_square field_simps)
  then have "sqrt (1 + (b / a)\<^sup>2) = sqrt (a * a + b * b) / sqrt (a * a)"
    by (simp add: real_sqrt_divide)
  then show ?thesis by simp
qed

lemma cos_atan2: "a \<noteq> 0 \<or> b \<noteq> 0 \<Longrightarrow> cos (atan2 b a) = a / sqrt (a * a + b * b)"
proof -
  assume nz: "a \<noteq> 0 \<or> b \<noteq> 0"
  consider "0 < a" | "a < 0" | "a = 0" "0 < b" | "a = 0" "b < 0"
    using nz by linarith
  then show ?thesis
  proof cases
    case 1 then show ?thesis by (simp add: atan2_def cos_arctan sqrt_quotient)
  next
    case 2 then show ?thesis by (simp add: atan2_def cos_arctan sqrt_quotient)
  next
    case 3 then show ?thesis by (simp add: atan2_def)
  next
    case 4 then show ?thesis by (simp add: atan2_def)
  qed
qed

lemma sin_atan2: "a \<noteq> 0 \<or> b \<noteq> 0 \<Longrightarrow> sin (atan2 b a) = b / sqrt (a * a + b * b)"
proof -
  assume nz: "a \<noteq> 0 \<or> b \<noteq> 0"
  consider "0 < a" | "a < 0" | "a = 0" "0 < b" | "a = 0" "b < 0"
    using nz by linarith
  then show ?thesis
  proof cases
    case 1 then show ?thesis by (simp add: atan2_def sin_arctan sqrt_quotient)
  next
    case 2 then show ?thesis by (simp add: atan2_def sin_arctan sqrt_quotient)
  next
    case 3 then show ?thesis by (simp add: atan2_def)
  next
    case 4 then show ?thesis by (simp add: atan2_def)
  qed
qed

lemma unit_heading: "sqrt (cos t * cos t + sin t * sin t) = 1" for t :: real
proof -
  have "cos t * cos t + sin t * sin t = 1"
    using sin_cos_squared_add [of t] by (simp add: power2_eq_square)
  then show ?thesis by simp
qed

lemma sqrt_squares_zero: "sqrt (a * a + b * b) = 0 \<longleftrightarrow> a = 0 \<and> b = 0" for a b :: real
proof -
  have "a * a + b * b = 0 \<longleftrightarrow> a = 0 \<and> b = 0"
    using sum_squares_eq_zero_iff [of a b] by simp
  then show ?thesis by simp
qed

lemma jsRem_360:
  assumes "0 \<le> h" and "h < 360"
  shows "jsRem (h + 1) 360 = (if h + 1 < 360 then h + 1 else h + 1 - 360)"
proof (cases "h + 1 < 360")
  case True
  with assms have "\<lfloor>(h + 1) / 360\<rfloor> = 0" by (simp add: floor_eq_iff)
  with assms True show ?thesis by (simp add: jsRem_def jsTrunc_def)
next
  case False
  with assms have "\<lfloor>(h + 1) / 360\<rfloor> = 1" by (simp add: floor_eq_iff)
  with assms False show ?thesis by (simp add: jsRem_def jsTrunc_def)
qed

section \<open>The speed floor\<close>

lemma speed_slowParticle: "speed slowParticle = 1 / 2"
proof -
  have "sqrt ((0.3::real) * 0.3 + 0.4 * 0.4) = 1 / 2"
    by (simp add: real_sqrt_divide)
  then show ?thesis by (simp add: speed_def slowParticle_def)
qed

lemma speed_fastParticle: "speed fastParticle = 5"
proof -
  have "sqrt ((3::real) * 3 + 4 * 4) = 5" by simp
  then show ?thesis by (simp add: speed_def fastParticle_def)
qed

section \<open>Rounding to doubles\<close>

lemma roundHalfEven_near: "\<bar>of_int (roundHalfEven r) - r\<bar> \<le> 1 / 2"
  unfolding roundHalfEven_def Let_def by (auto simp: abs_le_iff)

lemma roundHalfEven_eqI:
  assumes "of_int n - 1 / 2 < r" and "r < of_int n + 1 / 2"
  shows "roundHalfEven r = n"
proof -
  consider "of_int n \<le> r" | "r < of_int n" by linarith
  then show ?thesis
  proof cases
    case 1
    with assms have "\<lfloor>r\<rfloor> = n" by (simp add: floor_eq_iff)
    with assms show ?thesis by (simp add: roundHalfEven_def Let_def)
  next
    case 2
    with assms have "\<lfloor>r\<rfloor> = n - 1" by (simp add: floor_eq_iff)
    with assms show ?thesis by (simp add: roundHalfEven_def Let_def)
  qed
qed

lemma fl_eqI:
  assumes "lo = 2 powr (of_int e)" and "u = lo / 2 ^ 52" and "lo \<le> \<bar>a\<bar>" and "\<bar>a\<bar> < 2 * lo"
  shows "fl a = u * of_int (roundHalfEven (a / u))"
proof -
  have "0 < lo" by (simp add: assms(1))
  with assms(3) have pos: "0 < \<bar>a\<bar>" by linarith
  have "2 powr (of_int e + 1) = 2 * lo"
    by (simp add: assms(1) powr_add)
  then have "\<lfloor>log 2 \<bar>a\<bar>\<rfloor> = e"
    using assms pos by (simp add: floor_log_eq_powr_iff)
  moreover have "2 powr (of_int e - 52) = u"
    by (simp add: assms(1,2) powr_diff powr_numeral)
  ultimately show ?thesis using pos by (auto simp: fl_def Let_def)
qed

lemma fl_error:
  assumes "a \<noteq> 0"
  shows "\<bar>fl a - a\<bar> \<le> \<bar>a\<bar> / 2 ^ 53"
proof -
  define e where "e = \<lfloor>log 2 \<bar>a\<bar>\<rfloor>"
  define u :: real where "u = 2 powr (of_int e - 52)"
  have u: "0 < u" by (simp add: u_def)
  have low: "2 powr (of_int e) \<le> \<bar>a\<bar>"
    using assms floor_log_eq_powr_iff [of "\<bar>a\<bar>" 2 e] by (simp add: e_def)
  have fl: "fl a = u * of_int (roundHalfEven (a / u))"
    using assms by (simp add: fl_def Let_def u_def e_def)
  have "\<bar>fl a - a\<bar> = u * \<bar>of_int (roundHalfEven (a / u)) - a / u\<bar>"
  proof -
    have "fl a - a = u * (of_int (roundHalfEven (a / u)) - a / u)"
      using u by (simp add: fl field_simps)
    then show ?thesis using u by (simp add: abs_mult)
  qed
  also have "\<dots> \<le> u * (1 / 2)"
    using roundHalfEven_near [of "a / u"] u by (intro mult_left_mono) simp_all
  also have "\<dots> = 2 powr (of_int e) / 2 ^ 53"
  proof -
    have "u = 2 powr (of_int e) / 2 powr 52"
      by (simp add: u_def powr_diff)
    then show ?thesis by (simp add: powr_numeral)
  qed
  also have "\<dots> \<le> \<bar>a\<bar> / 2 ^ 53"
    using low by (simp add: divide_right_mono)
  finally show ?thesis .
qed

lemma fl_lower: "0 \<le> a \<Longrightarrow> a * (1 - 1 / 2 ^ 53) \<le> fl a"
proof (cases "a = 0")
  case True
  then show ?thesis by (simp add: fl_def)
next
  case False
  assume "0 \<le> a"
  with fl_error [OF False] have "\<bar>fl a - a\<bar> \<le> a / 2 ^ 53" by simp
  moreover have "a * (1 - 1 / 2 ^ 53) = a - a / 2 ^ 53" by (simp add: algebra_simps)
  ultimately show ?thesis by linarith
qed

lemma fl_upper: "0 \<le> a \<Longrightarrow> fl a \<le> a * (1 + 1 / 2 ^ 53)"
proof (cases "a = 0")
  case True
  then show ?thesis by (simp add: fl_def)
next
  case False
  assume "0 \<le> a"
  with fl_error [OF False] have "\<bar>fl a - a\<bar> \<le> a / 2 ^ 53" by simp
  moreover have "a * (1 + 1 / 2 ^ 53) = a + a / 2 ^ 53" by (simp add: algebra_simps)
  ultimately show ?thesis by linarith
qed

lemma fl_nonneg: "0 \<le> a \<Longrightarrow> 0 \<le> fl a"
proof -
  assume a: "0 \<le> a"
  then have "0 \<le> a * (1 - 1 / 2 ^ 53)" by simp
  with fl_lower [OF a] show ?thesis by linarith
qed

text \<open>
  The speed read back from a velocity \<open>(c, s)\<close> whose squares add up to 1 within \<open>2\<^sup>-\<^sup>5\<^sup>1\<close>
  is at least \<open>1 - 2\<^sup>-\<^sup>5\<^sup>0\<close>: four roundings, each with relative error at most \<open>2\<^sup>-\<^sup>5\<^sup>3\<close>.
\<close>

lemma rounded_speed_lower:
  assumes "\<bar>c * c + s * s - 1\<bar> \<le> 1 / 2 ^ 51"
  shows "1 - 1 / 2 ^ 50 \<le> fl (sqrt (fl (fl (c * c) + fl (s * s))))"
proof -
  define k :: real where "k = 1 - 1 / 2 ^ 53"
  define t :: real where "t = 1 - 1 / 2 ^ 51"
  have k: "0 < k" and t: "0 < t" by (simp_all add: k_def t_def)
  have sq: "t \<le> c * c + s * s" using assms unfolding t_def by linarith
  have A: "c * c * k \<le> fl (c * c)" and B: "s * s * k \<le> fl (s * s)"
    using fl_lower [of "c * c"] fl_lower [of "s * s"] by (simp_all add: k_def)
  have "(c * c + s * s) * k = c * c * k + s * s * k" by (simp add: algebra_simps)
  with A B have sum: "(c * c + s * s) * k \<le> fl (c * c) + fl (s * s)" by linarith
  have "t * k \<le> (c * c + s * s) * k" using sq k by simp
  with sum have sum': "t * k \<le> fl (c * c) + fl (s * s)" by linarith
  have tk: "0 < t * k" using k t by simp
  with sum' have pos: "0 \<le> fl (c * c) + fl (s * s)" by linarith
  have "(fl (c * c) + fl (s * s)) * k \<le> fl (fl (c * c) + fl (s * s))"
    using fl_lower [OF pos] by (simp add: k_def)
  moreover have "t * k * k \<le> (fl (c * c) + fl (s * s)) * k"
    using sum' k by simp
  ultimately have S: "t * k * k \<le> fl (fl (c * c) + fl (s * s))" by linarith
  have "(t * k)\<^sup>2 \<le> t * k * k"
    by (simp add: t_def k_def power2_eq_square)
  with S have "(t * k)\<^sup>2 \<le> fl (fl (c * c) + fl (s * s))" by linarith
  then have root: "t * k \<le> sqrt (fl (fl (c * c) + fl (s * s)))"
    by (rule real_le_rsqrt)
  with tk have rpos: "0 \<le> sqrt (fl (fl (c * c) + fl (s * s)))" by linarith
  have "sqrt (fl (fl (c * c) + fl (s * s))) * k \<le> fl (sqrt (fl (fl (c * c) + fl (s * s))))"
    using fl_lower [OF rpos] by (simp add: k_def)
  moreover have "t * k * k \<le> sqrt (fl (fl (c * c) + fl (s * s))) * k"
    using root k by simp
  moreover have "1 - 1 / 2 ^ 50 \<le> t * k * k"
    by (simp add: t_def k_def)
  ultimately show ?thesis by linarith
qed

section \<open>The example of a floor that lands below the base speed\<close>

lemma fl_tiny:
  "fl (1 / 65536) = 1 / 65536" "fl (9 / 65536) = 9 / 65536" "fl (5 / 32768) = 5 / 32768"
proof -
  show "fl (1 / 65536) = 1 / 65536"
    by (subst fl_eqI [where e = "- 16" and lo = "1 / 2 ^ 16" and u = "1 / 2 ^ 68"])
       (simp_all add: powr_minus powr_numeral inverse_eq_divide roundHalfEven_def)
  show "fl (9 / 65536) = 9 / 65536"
    by (subst fl_eqI [where e = "- 13" and lo = "1 / 2 ^ 13" and u = "1 / 2 ^ 65"])
       (simp_all add: powr_minus powr_numeral inverse_eq_divide roundHalfEven_def)
  show "fl (5 / 32768) = 5 / 32768"
    by (subst fl_eqI [where e = "- 13" and lo = "1 / 2 ^ 13" and u = "1 / 2 ^ 65"])
       (simp_all add: powr_minus powr_numeral inverse_eq_divide roundHalfEven_def)
qed

lemma speedD_tinyParticle: "speedD tinyParticle < 1"
proof -
  have half: "sqrt (5 / 32768) < 1 / 2"
    by (rule real_less_lsqrt) (simp_all add: power2_eq_square)
  have "fl (sqrt (5 / 32768)) \<le> sqrt (5 / 32768) * (1 + 1 / 2 ^ 53)"
    by (rule fl_upper) simp
  also have "\<dots> \<le> 1 / 2 * (1 + 1 / 2 ^ 53)"
    using half by (intro mult_right_mono) simp_all
  also have "\<dots> < 1" by simp
  finally show ?thesis
    by (simp add: speedD_def tinyParticle_def fl_tiny)
qed

lemma fl_engineCos: "fl engineCos = engineCos"
  unfolding engineCos_def
  by (subst fl_eqI [where e = "- 2" and lo = "1 / 2 ^ 2" and u = "1 / 2 ^ 54"])
     (simp_all add: powr_minus powr_numeral inverse_eq_divide roundHalfEven_def)

lemma fl_engineSin: "fl engineSin = engineSin"
  unfolding engineSin_def
  by (subst fl_eqI [where e = "- 1" and lo = "1 / 2" and u = "1 / 2 ^ 53"])
     (simp_all add: powr_minus inverse_eq_divide roundHalfEven_def)

lemma fl_engineCos_square: "fl (engineCos * engineCos) = 7205759403792794 / 2 ^ 56"
  unfolding engineCos_def
  by (subst fl_eqI [where e = "- 4" and lo = "1 / 2 ^ 4" and u = "1 / 2 ^ 56"])
     (simp_all add: powr_minus powr_numeral inverse_eq_divide roundHalfEven_def)

lemma fl_engineSin_square: "fl (engineSin * engineSin) = 8106479329266892 / 2 ^ 53"
  unfolding engineSin_def
  by (subst fl_eqI [where e = "- 1" and lo = "1 / 2" and u = "1 / 2 ^ 53"])
     (simp_all add: powr_minus inverse_eq_divide roundHalfEven_def)

lemma fl_engine_sum:
  "fl (7205759403792794 / 2 ^ 56 + 8106479329266892 / 2 ^ 53) = 9007199254740991 / 2 ^ 53"
  by (subst fl_eqI [where e = "- 1" and lo = "1 / 2" and u = "1 / 2 ^ 53"])
     (simp_all add: powr_minus inverse_eq_divide roundHalfEven_def)

lemma fl_engine_sqrt: "fl (sqrt (9007199254740991 / 2 ^ 53)) = 9007199254740991 / 2 ^ 53"
proof -
  define r :: real where "r = sqrt (9007199254740991 / 2 ^ 53)"
  have up: "r < 1 - 1 / 2 ^ 54"
    unfolding r_def by (rule real_less_lsqrt) (simp_all add: power2_eq_square)
  have low: "1 - 3 / 2 ^ 54 < r"
    unfolding r_def by (rule real_less_rsqrt) (simp add: power2_eq_square)
  have "roundHalfEven (r / (1 / 2 ^ 53)) = 9007199254740991"
  proof (rule roundHalfEven_eqI)
    have "r / (1 / 2 ^ 53) = r * 2 ^ 53" by simp
    moreover have "(1 - 3 / 2 ^ 54) * 2 ^ 53 < r * 2 ^ 53" "r * 2 ^ 53 < (1 - 1 / 2 ^ 54) * 2 ^ 53"
      using low up by simp_all
    ultimately show "of_int 9007199254740991 - 1 / 2 < r / (1 / 2 ^ 53)"
      and "r / (1 / 2 ^ 53) < of_int 9007199254740991 + 1 / 2"
      by simp_all
  qed
  moreover have "fl r = 1 / 2 ^ 53 * of_int (roundHalfEven (r / (1 / 2 ^ 53)))"
  proof (rule fl_eqI [where e = "- 1" and lo = "1 / 2"])
    show "(1 / 2 :: real) = 2 powr of_int (- 1)" by (simp add: powr_minus inverse_eq_divide)
    show "(1 / 2 ^ 53 :: real) = 1 / 2 / 2 ^ 52" by simp
    show "1 / 2 \<le> \<bar>r\<bar>" using low by simp
    show "\<bar>r\<bar> < 2 * (1 / 2)" using up low by simp
  qed
  ultimately show ?thesis by (simp add: r_def)
qed

lemma speedFloorD_tinyParticle:
  "speedFloorD engineMath tinyParticle = tinyParticle\<lparr>p_vx := engineCos, p_vy := engineSin\<rparr>"
proof -
  have "mathAtan2 engineMath (p_vy tinyParticle) (p_vx tinyParticle) = engineAngle"
    by (simp add: engineMath_def tinyParticle_def)
  moreover have "mathCos engineMath engineAngle = engineCos" "mathSin engineMath engineAngle = engineSin"
    by (simp_all add: engineMath_def)
  ultimately show ?thesis
    using speedD_tinyParticle
    by (simp add: speedFloorD_def baseSpeed_def Let_def fl_engineCos fl_engineSin)
qed

lemma speedD_after_floor:
  "speedD (tinyParticle\<lparr>p_vx := engineCos, p_vy := engineSin\<rparr>) = 9007199254740991 / 2 ^ 53"
proof -
  have v: "p_vx (tinyParticle\<lparr>p_vx := engineCos, p_vy := engineSin\<rparr>) = engineCos"
      "p_vy (tinyParticle\<lparr>p_vx := engineCos, p_vy := engineSin\<rparr>) = engineSin"
    by simp_all
  show ?thesis
    by (simp only: speedD_def v fl_engineCos_square fl_engineSin_square
        fl_engine_sum fl_engine_sqrt)
qed

lemma fl_small_integers: "fl 5 = 5" "fl 9 = 9" "fl 16 = 16" "fl 25 = 25"
proof -
  show "fl 5 = 5"
    by (subst fl_eqI [where e = 2 and lo = 4 and u = "4 / 2 ^ 52"])
       (simp_all add: powr_numeral roundHalfEven_def)
  show "fl 9 = 9"
    by (subst fl_eqI [where e = 3 and lo = 8 and u = "8 / 2 ^ 52"])
       (simp_all add: powr_numeral roundHalfEven_def)
  show "fl 16 = 16"
    by (subst fl_eqI [where e = 4 and lo = 16 and u = "16 / 2 ^ 52"])
       (simp_all add: powr_numeral roundHalfEven_def)
  show "fl 25 = 25"
    by (subst fl_eqI [where e = 4 and lo = 16 and u = "16 / 2 ^ 52"])
       (simp_all add: powr_numeral roundHalfEven_def)
qed

lemma speedD_fastParticle: "speedD fastParticle = 5"
  by (simp add: speedD_def fastParticle_def fl_small_integers)

lemma speedFloor_exact:
  "1 \<le> speed (speedFloor p)
   \<and> (speed p < 1 \<longrightarrow>
        speedFloor p = p\<lparr>p_vx := cos (atan2 (p_vy p) (p_vx p)), p_vy := sin (atan2 (p_vy p) (p_vx p))\<rparr>
        \<and> speed (speedFloor p) = 1
        \<and> (0 < speed p \<longrightarrow>
             p_vx (speedFloor p) = p_vx p / speed p \<and> p_vy (speedFloor p) = p_vy p / speed p))
   \<and> (1 \<le> speed p \<longrightarrow> speedFloor p = p)"
proof -
  have slow: "speed p < 1 \<Longrightarrow>
      speedFloor p = p\<lparr>p_vx := cos (atan2 (p_vy p) (p_vx p)), p_vy := sin (atan2 (p_vy p) (p_vx p))\<rparr>"
    by (simp add: speedFloor_def baseSpeed_def Let_def)
  have fast: "1 \<le> speed p \<Longrightarrow> speedFloor p = p"
    by (simp add: speedFloor_def baseSpeed_def)
  have unit: "speed p < 1 \<Longrightarrow> speed (speedFloor p) = 1"
    using slow by (simp add: speed_def unit_heading)
  have dir: "speed p < 1 \<Longrightarrow> 0 < speed p \<Longrightarrow>
      p_vx (speedFloor p) = p_vx p / speed p \<and> p_vy (speedFloor p) = p_vy p / speed p"
  proof -
    assume s: "speed p < 1" and pos: "0 < speed p"
    have "p_vx p \<noteq> 0 \<or> p_vy p \<noteq> 0"
      using pos by (auto simp: speed_def)
    then show ?thesis
      using slow [OF s] by (simp add: speed_def cos_atan2 sin_atan2)
  qed
  have "1 \<le> speed (speedFloor p)"
    using unit fast by (cases "speed p < 1") auto
  with slow fast unit dir show ?thesis
    by simp
qed

lemma speedFloorD_cases:
  "(1 \<le> speedD p \<longrightarrow> speedFloorD mth p = p)
   \<and> (speedD p < 1 \<longrightarrow>
        speedFloorD mth p =
          p\<lparr>p_vx := fl (mathCos mth (mathAtan2 mth (p_vy p) (p_vx p))),
            p_vy := fl (mathSin mth (mathAtan2 mth (p_vy p) (p_vx p)))\<rparr>)"
  by (simp add: speedFloorD_def baseSpeed_def Let_def)

lemma speedFloorD_lower:
  assumes "\<bar>p_vx (speedFloorD mth p) * p_vx (speedFloorD mth p)
          + p_vy (speedFloorD mth p) * p_vy (speedFloorD mth p) - 1\<bar> \<le> 1 / 2 ^ 51"
  shows "1 - 1 / 2 ^ 50 \<le> speedD (speedFloorD mth p)"
  unfolding speedD_def using assms by (rule rounded_speed_lower)

text \<open>
  Claim C3, as amended. The speed-floor step leaves a particle whose speed
  \<open>sqrt (vx\<^sup>2 + vy\<^sup>2)\<close> is at least \<open>baseSpeed = 1\<close> unchanged (there is no upper bound), and
  gives a slower one the velocity \<open>(cos a, sin a)\<close> times \<open>baseSpeed\<close> for \<open>a = atan2 vy vx\<close>.
  In exact arithmetic that velocity has magnitude exactly 1 and, when the particle was
  moving at all, is its old velocity divided by its old speed, so the speed after the step
  is at least \<open>baseSpeed\<close>. In the doubles of the program the components are the engine's
  cosine and sine of the engine's angle, and the speed read back from them is at least
  \<open>1 - 2\<^sup>-\<^sup>5\<^sup>0\<close> whenever their squares add up to 1 within \<open>2\<^sup>-\<^sup>5\<^sup>1\<close>: at least
  \<open>baseSpeed\<close> up to rounding, not always at least \<open>baseSpeed\<close>.
\<close>

theorem speedFloor_up_to_rounding:
  "baseSpeed = 1
   \<and> 1 \<le> speed (speedFloor p)
   \<and> (speed p < 1 \<longrightarrow>
        speedFloor p = p\<lparr>p_vx := cos (atan2 (p_vy p) (p_vx p)), p_vy := sin (atan2 (p_vy p) (p_vx p))\<rparr>
        \<and> speed (speedFloor p) = 1
        \<and> (0 < speed p \<longrightarrow>
             p_vx (speedFloor p) = p_vx p / speed p \<and> p_vy (speedFloor p) = p_vy p / speed p))
   \<and> (1 \<le> speed p \<longrightarrow> speedFloor p = p)
   \<and> (1 \<le> speedD p \<longrightarrow> speedFloorD mth p = p)
   \<and> (speedD p < 1 \<longrightarrow>
        speedFloorD mth p =
          p\<lparr>p_vx := fl (mathCos mth (mathAtan2 mth (p_vy p) (p_vx p))),
            p_vy := fl (mathSin mth (mathAtan2 mth (p_vy p) (p_vx p)))\<rparr>)
   \<and> (\<bar>p_vx (speedFloorD mth p) * p_vx (speedFloorD mth p)
        + p_vy (speedFloorD mth p) * p_vy (speedFloorD mth p) - 1\<bar> \<le> 1 / 2 ^ 51 \<longrightarrow>
        1 - 1 / 2 ^ 50 \<le> speedD (speedFloorD mth p))"
proof -
  have "baseSpeed = 1" by (simp add: baseSpeed_def)
  then show ?thesis
    using speedFloor_exact [of p] speedFloorD_cases [of p mth] speedFloorD_lower [of mth p]
    by blast
qed

theorem speedFloor_up_to_rounding_witness:
  "speed slowParticle < 1 \<and> 0 < speed slowParticle
   \<and> p_vx (speedFloor slowParticle) = 3 / 5 \<and> p_vy (speedFloor slowParticle) = 4 / 5
   \<and> speed (speedFloor slowParticle) = 1
   \<and> 1 \<le> speed fastParticle \<and> speedFloor fastParticle = fastParticle
   \<and> 1 \<le> speedD fastParticle \<and> speedFloorD engineMath fastParticle = fastParticle
   \<and> speedD tinyParticle < 1
   \<and> speedFloorD engineMath tinyParticle = tinyParticle\<lparr>p_vx := engineCos, p_vy := engineSin\<rparr>
   \<and> \<bar>engineCos * engineCos + engineSin * engineSin - 1\<bar> \<le> 1 / 2 ^ 51
   \<and> 1 - 1 / 2 ^ 50 \<le> speedD (speedFloorD engineMath tinyParticle)"
proof -
  have slow: "speed slowParticle < 1" "0 < speed slowParticle"
    by (simp_all add: speed_slowParticle)
  have fast: "1 \<le> speed fastParticle"
    by (simp add: speed_fastParticle)
  have fastD: "1 \<le> speedD fastParticle"
    by (simp add: speedD_fastParticle)
  have tiny: "speedD tinyParticle < 1"
    by (rule speedD_tinyParticle)
  have near: "\<bar>engineCos * engineCos + engineSin * engineSin - 1\<bar> \<le> 1 / 2 ^ 51"
    by (simp add: engineCos_def engineSin_def)
  have res: "speedFloorD engineMath tinyParticle =
      tinyParticle\<lparr>p_vx := engineCos, p_vy := engineSin\<rparr>"
    by (rule speedFloorD_tinyParticle)
  then have near': "\<bar>p_vx (speedFloorD engineMath tinyParticle) * p_vx (speedFloorD engineMath tinyParticle)
        + p_vy (speedFloorD engineMath tinyParticle) * p_vy (speedFloorD engineMath tinyParticle) - 1\<bar>
        \<le> 1 / 2 ^ 51"
    using near by simp
  have "p_vx (speedFloor slowParticle) = p_vx slowParticle / speed slowParticle"
    and "p_vy (speedFloor slowParticle) = p_vy slowParticle / speed slowParticle"
    and "speed (speedFloor slowParticle) = 1"
    using speedFloor_up_to_rounding [of slowParticle engineMath] slow by blast+
  moreover have "speedFloor fastParticle = fastParticle"
    and "speedFloorD engineMath fastParticle = fastParticle"
    using speedFloor_up_to_rounding [of fastParticle engineMath] fast fastD by blast+
  moreover have "1 - 1 / 2 ^ 50 \<le> speedD (speedFloorD engineMath tinyParticle)"
    using speedFloor_up_to_rounding [of tinyParticle engineMath] tiny near' by blast
  ultimately show ?thesis
    using slow fast fastD tiny near res
    by (simp add: speed_slowParticle) (simp add: slowParticle_def)
qed

text \<open>
  Against claim C3 as it was stated: a particle with velocity \<open>(0.00390625, 0.01171875)\<close>
  is below the base speed; the step gives it the velocity
  \<open>(0.31622776601683794, 0.9486832980505138)\<close>, and the speed the program computes from
  that is \<open>1 - 2\<^sup>-\<^sup>5\<^sup>3\<close>, which prints as 0.9999999999999999 and is below \<open>baseSpeed\<close>.
\<close>

theorem speedFloor_rounds_below_baseSpeed:
  "speedD tinyParticle < baseSpeed
   \<and> speedFloorD engineMath tinyParticle = tinyParticle\<lparr>p_vx := engineCos, p_vy := engineSin\<rparr>
   \<and> speedD (speedFloorD engineMath tinyParticle) = 9007199254740991 / 9007199254740992
   \<and> speedD (speedFloorD engineMath tinyParticle) < baseSpeed"
  using speedD_tinyParticle
  by (simp add: speedFloorD_tinyParticle speedD_after_floor baseSpeed_def)

section \<open>Pointer repulsion\<close>

text \<open>
  Claim C4. In the pointer-interactive file, with \<open>d\<close> the distance from the pointer to the
  particle and \<open>R\<close> the repulsion radius: if \<open>d < R\<close> the step adds
  \<open>(force * mouseForce * cos a, force * mouseForce * sin a)\<close> to the velocity and changes
  nothing else, where \<open>force = (R - d) / R\<close> lies in \<open>(0, 1]\<close> and is 1 at the pointer, and
  \<open>a = atan2 dy dx\<close> is the direction from the pointer to the particle
  (\<open>cos a = dx / d\<close>, \<open>sin a = dy / d\<close>); if \<open>d \<ge> R\<close> the particle is unchanged.
\<close>

theorem repulse_linear_falloff:
  "(let dx = p_x p - fst mouse;
        dy = p_y p - snd mouse;
        d = sqrt (dx * dx + dy * dy);
        R = mouseRepulsion (effects pr);
        force = (R - d) / R;
        a = atan2 dy dx
    in (d < R \<longrightarrow>
          repulse pr mouse p =
            p\<lparr>p_vx := p_vx p + force * mouseForce (effects pr) * cos a,
              p_vy := p_vy p + force * mouseForce (effects pr) * sin a\<rparr>
          \<and> 0 < force \<and> force \<le> 1 \<and> (d = 0 \<longrightarrow> force = 1)
          \<and> (0 < d \<longrightarrow> cos a = dx / d \<and> sin a = dy / d))
       \<and> (R \<le> d \<longrightarrow> repulse pr mouse p = p))"
proof -
  define dx where "dx = p_x p - fst mouse"
  define dy where "dy = p_y p - snd mouse"
  define d where "d = sqrt (dx * dx + dy * dy)"
  define R where "R = mouseRepulsion (effects pr)"
  have d0: "0 \<le> d" by (simp add: d_def)
  have near: "d < R \<Longrightarrow> repulse pr mouse p =
      p\<lparr>p_vx := p_vx p + (R - d) / R * mouseForce (effects pr) * cos (atan2 dy dx),
        p_vy := p_vy p + (R - d) / R * mouseForce (effects pr) * sin (atan2 dy dx)\<rparr>"
    by (simp add: repulse_def Let_def dx_def dy_def d_def R_def mult_ac)
  have far: "R \<le> d \<Longrightarrow> repulse pr mouse p = p"
    by (simp add: repulse_def Let_def dx_def dy_def d_def R_def)
  have force: "d < R \<Longrightarrow> 0 < (R - d) / R \<and> (R - d) / R \<le> 1 \<and> (d = 0 \<longrightarrow> (R - d) / R = 1)"
    using d0 by (auto simp: field_simps)
  have away: "0 < d \<Longrightarrow> cos (atan2 dy dx) = dx / d \<and> sin (atan2 dy dx) = dy / d"
  proof -
    assume "0 < d"
    then have "dx \<noteq> 0 \<or> dy \<noteq> 0" by (auto simp: d_def)
    then show ?thesis by (simp add: cos_atan2 sin_atan2 d_def)
  qed
  from near far force away show ?thesis
    unfolding Let_def dx_def [symmetric] dy_def [symmetric] d_def [symmetric] R_def [symmetric]
    by blast
qed

theorem repulse_linear_falloff_witness:
  "sqrt ((p_x fastParticle - 0) * (p_x fastParticle - 0) + (p_y fastParticle - 0) * (p_y fastParticle - 0)) = 5
   \<and> mouseRepulsion (effects initialProps) = 80
   \<and> repulse initialProps (0, 0) fastParticle = fastParticle\<lparr>p_vx := 75 / 16, p_vy := 25 / 4\<rparr>
   \<and> cos (atan2 4 3) = 3 / 5 \<and> sin (atan2 4 3) = 4 / 5
   \<and> sqrt ((p_x fastParticle - 303) * (p_x fastParticle - 303) + (p_y fastParticle - 4) * (p_y fastParticle - 4)) = 300
   \<and> repulse initialProps (303, 4) fastParticle = fastParticle"
proof -
  have R: "mouseRepulsion (effects initialProps) = 80" "mouseForce (effects initialProps) = 3"
    by (simp_all add: initialProps_def initialEffects_def)
  have pos: "p_x fastParticle = 3" "p_y fastParticle = 4" "p_vx fastParticle = 3" "p_vy fastParticle = 4"
    by (simp_all add: fastParticle_def)
  have near: "sqrt ((3 - 0) * (3 - 0) + (4 - 0) * (4 - 0)) = (5::real)" by simp
  have far: "sqrt ((3 - 303) * (3 - 303) + (4 - 4) * (4 - 4)) = (300::real)" by simp
  have one: "repulse initialProps (0, 0) fastParticle =
         fastParticle\<lparr>p_vx := 3 + (80 - 5) / 80 * 3 * cos (atan2 4 3), p_vy := 4 + (80 - 5) / 80 * 3 * sin (atan2 4 3)\<rparr>
       \<and> cos (atan2 4 3) = 3 / 5 \<and> sin (atan2 4 3) = 4 / 5"
    using repulse_linear_falloff [of fastParticle "(0, 0)" initialProps]
    unfolding Let_def fst_conv snd_conv pos R near
    by simp
  have two: "repulse initialProps (303, 4) fastParticle = fastParticle"
    using repulse_linear_falloff [of fastParticle "(303, 4)" initialProps]
    unfolding Let_def fst_conv snd_conv pos R far
    by simp
  from one two R near far show ?thesis
    by (simp add: pos)
qed

section \<open>Colour conversion\<close>

lemma rgbToHsl_spec: "rgbToHsl r g b = spec_rgbToHsl r g b"
proof -
  have mx: "Max {r, g, b} = max r (max g b)" by simp
  have mn: "Min {r, g, b} = min r (min g b)" by simp
  have "max r (max g b) = r \<or> max r (max g b) = g \<or> max r (max g b) = b"
    by linarith
  then show ?thesis
    unfolding rgbToHsl_def spec_rgbToHsl_def mx mn Let_def
    by (auto simp: algebra_simps)
qed

lemma rgbToHsl_hue_range: "0 \<le> fst (rgbToHsl r g b) \<and> fst (rgbToHsl r g b) < 360"
proof (cases "max r (max g b) = min r (min g b)")
  case True
  then show ?thesis by (simp add: rgbToHsl_def)
next
  case False
  define mx where "mx = max r (max g b)"
  define mn where "mn = min r (min g b)"
  define d where "d = mx - mn"
  define q where "q = (if mx = r then (g - b) / d + (if g < b then 6 else 0)
       else if mx = g then (b - r) / d + 2
       else if mx = b then (r - g) / d + 4 else 0)"
  have d: "0 < d" using False unfolding d_def mx_def mn_def by linarith
  have hue: "fst (rgbToHsl r g b) = q * 60"
    using False unfolding q_def d_def mx_def mn_def by (simp add: rgbToHsl_def Let_def)
  have frac: "\<bar>u\<bar> \<le> d \<Longrightarrow> - 1 \<le> u / d \<and> u / d \<le> 1" for u
    using d by (simp add: field_simps abs_le_iff)
  consider "mx = r" "g < b" | "mx = r" "b \<le> g" | "mx \<noteq> r" "mx = g" | "mx \<noteq> r" "mx \<noteq> g" "mx = b"
    unfolding mx_def by linarith
  then have "0 \<le> q \<and> q < 6"
  proof cases
    case 1
    then have "\<bar>g - b\<bar> \<le> d" unfolding d_def mn_def mx_def by linarith
    from frac [OF this] have "- 1 \<le> (g - b) / d" by simp
    moreover have "(g - b) / d < 0" using 1 d by (simp add: field_simps)
    moreover have "q = (g - b) / d + 6" using 1 by (simp add: q_def)
    ultimately show ?thesis by linarith
  next
    case 2
    then have "\<bar>g - b\<bar> \<le> d" unfolding d_def mn_def mx_def by linarith
    from frac [OF this] have "(g - b) / d \<le> 1" by simp
    moreover have "0 \<le> (g - b) / d" using 2 d by (simp add: field_simps)
    moreover have "q = (g - b) / d" using 2 by (simp add: q_def)
    ultimately show ?thesis by linarith
  next
    case 3
    then have "\<bar>b - r\<bar> \<le> d" unfolding d_def mn_def mx_def by linarith
    from frac [OF this] have "- 1 \<le> (b - r) / d \<and> (b - r) / d \<le> 1" .
    moreover have "q = (b - r) / d + 2" using 3 by (simp add: q_def)
    ultimately show ?thesis by linarith
  next
    case 4
    then have "\<bar>r - g\<bar> \<le> d" unfolding d_def mn_def mx_def by linarith
    from frac [OF this] have "- 1 \<le> (r - g) / d \<and> (r - g) / d \<le> 1" .
    moreover have "q = (r - g) / d + 4" using 4 by (simp add: q_def)
    ultimately show ?thesis by linarith
  qed
  with hue show ?thesis by linarith
qed

lemmas colour_parsing = solidColor_def rgbToHsl_def parseInt16_def slice_def hexDigit_def isWhiteSpace_def

text \<open>
  Claim C6. The solid-mode conversion from RGB to HSL is a function of the three channels
  that agrees with the specification's formula; its hue is never negative and lies in
  \<open>[0, 360)\<close>; and \<^verbatim>\<open>#ffffff\<close> gives hue 0, saturation 0, lightness 100,
  \<^verbatim>\<open>#ff0000\<close> gives hue 0, saturation 100, lightness 50, and \<^verbatim>\<open>#000000\<close> gives
  saturation 0 and lightness 0.
\<close>

theorem rgbToHsl_standard_formula:
  "rgbToHsl r g b = spec_rgbToHsl r g b
   \<and> 0 \<le> fst (rgbToHsl r g b) \<and> fst (rgbToHsl r g b) < 360
   \<and> solidColor ''#ffffff'' = Some (0, 0, 100)
   \<and> solidColor ''#ff0000'' = Some (0, 100, 50)
   \<and> solidColor ''#000000'' = Some (0, 0, 0)"
proof -
  have "solidColor ''#ffffff'' = Some (0, 0, 100)" by (simp add: colour_parsing)
  moreover have "solidColor ''#ff0000'' = Some (0, 100, 50)" by (simp add: colour_parsing)
  moreover have "solidColor ''#000000'' = Some (0, 0, 0)" by (simp add: colour_parsing)
  ultimately show ?thesis using rgbToHsl_spec rgbToHsl_hue_range by simp
qed

section \<open>Colour resolution\<close>

text \<open>
  Claim C9. In rainbow mode every call of \<^verbatim>\<open>getParticleColor\<close> replaces the stored hue
  \<open>h\<close> by \<open>(h + 1) % 360\<close>, that is \<open>h + 1\<close> less a whole multiple of 360, and changes no
  other field; for a stored hue in \<open>[0, 360)\<close> the new one is \<open>h + 1\<close>, wrapped to
  \<open>h + 1 - 360\<close> from 360 on, and is in \<open>[0, 360)\<close> again. The colour returned has the new
  hue. In solid mode the call returns the stored hue, saturation and brightness and leaves
  the particle unchanged.
\<close>

theorem getParticleColor_hue_step:
  "(colorMode (effects pr) = ''rainbow'' \<longrightarrow>
      snd (getParticleColor pr p) =
        p\<lparr>p_hue := p_hue p + 1 - 360 * of_int (jsTrunc ((p_hue p + 1) / 360))\<rparr>
      \<and> fst (getParticleColor pr p) = Hsl (p_hue (snd (getParticleColor pr p))) 100 50
      \<and> (0 \<le> p_hue p \<and> p_hue p < 360 \<longrightarrow>
           p_hue (snd (getParticleColor pr p)) =
             (if p_hue p + 1 < 360 then p_hue p + 1 else p_hue p + 1 - 360)
           \<and> 0 \<le> p_hue (snd (getParticleColor pr p))
           \<and> p_hue (snd (getParticleColor pr p)) < 360))
   \<and> (colorMode (effects pr) = ''solid'' \<longrightarrow>
      getParticleColor pr p = (Hsl (p_hue p) (p_saturation p) (p_brightness p), p))"
proof -
  have "jsRem (p_hue p + 1) 360 = p_hue p + 1 - 360 * of_int (jsTrunc ((p_hue p + 1) / 360))"
    by (simp add: jsRem_def)
  moreover have "0 \<le> p_hue p \<and> p_hue p < 360 \<longrightarrow>
      jsRem (p_hue p + 1) 360 = (if p_hue p + 1 < 360 then p_hue p + 1 else p_hue p + 1 - 360)"
    using jsRem_360 by blast
  ultimately show ?thesis
    by (auto simp: getParticleColor_def Let_def)
qed

theorem getParticleColor_hue_step_witness:
  "colorMode (effects rainbowProps) = ''rainbow''
   \<and> 0 \<le> p_hue slowParticle \<and> p_hue slowParticle < 360
   \<and> getParticleColor rainbowProps slowParticle = (Hsl 0.5 100 50, slowParticle\<lparr>p_hue := 0.5\<rparr>)
   \<and> getParticleColor rainbowProps fastParticle = (Hsl 121 100 50, fastParticle\<lparr>p_hue := 121\<rparr>)
   \<and> colorMode (effects initialProps) = ''solid''
   \<and> getParticleColor initialProps slowParticle = (Hsl 359.5 100 100, slowParticle)"
proof -
  have rainbow: "colorMode (effects rainbowProps) = ''rainbow''"
    by (simp add: rainbowProps_def initialProps_def)
  have solid: "colorMode (effects initialProps) = ''solid''"
    by (simp add: initialProps_def initialEffects_def)
  have slow: "p_hue slowParticle = 359.5" and fast: "p_hue fastParticle = 120"
    by (simp_all add: slowParticle_def fastParticle_def)
  have "snd (getParticleColor rainbowProps slowParticle) = slowParticle\<lparr>p_hue := 0.5\<rparr>"
    and "fst (getParticleColor rainbowProps slowParticle) = Hsl 0.5 100 50"
    using getParticleColor_hue_step [of rainbowProps slowParticle] rainbow
    by (simp_all add: slow jsTrunc_def)
  moreover have "snd (getParticleColor rainbowProps fastParticle) = fastParticle\<lparr>p_hue := 121\<rparr>"
    and "fst (getParticleColor rainbowProps fastParticle) = Hsl 121 100 50"
    using getParticleColor_hue_step [of rainbowProps fastParticle] rainbow
    by (simp_all add: fast jsTrunc_def)
  moreover have "getParticleColor initialProps slowParticle = (Hsl 359.5 100 100, slowParticle)"
    using getParticleColor_hue_step [of initialProps slowParticle] solid
    by (simp add: slowParticle_def)
  ultimately show ?thesis
    using rainbow solid by (simp add: slow prod_eq_iff)
qed

section \<open>Connection lines: the stroke\<close>

text \<open>
  Claim C10. With line style \<^verbatim>\<open>gradient\<close> the stroke of a connection line is a linear
  gradient between the two ends with their resolved colours as its two stops; the opacity
  passed to \<^verbatim>\<open>drawLine\<close> does not enter the result at all, so such a line does not fade
  with distance. With any other line style the stroke is white with that opacity as alpha.
\<close>

theorem drawLine_gradient_ignores_opacity:
  "(lineStyle (effects pr) = ''gradient'' \<longrightarrow>
      drawLine pr c p1 p2 opacity = drawLine pr c p1 p2 opacity'
      \<and> strokeStyle (settings (fst (drawLine pr c p1 p2 opacity))) =
          LinearGradient (p_x p1) (p_y p1) (p_x p2) (p_y p2)
            [(0, fst (getParticleColor pr p1)), (1, fst (getParticleColor pr p2))]
      \<and> strokes (frame (fst (drawLine pr c p1 p2 opacity))) =
          strokes (frame c) @
            [(segment p1 p2, LinearGradient (p_x p1) (p_y p1) (p_x p2) (p_y p2)
               [(0, fst (getParticleColor pr p1)), (1, fst (getParticleColor pr p2))])])
   \<and> (lineStyle (effects pr) \<noteq> ''gradient'' \<longrightarrow>
      strokeStyle (settings (fst (drawLine pr c p1 p2 opacity))) = Colour (Rgba 255 255 255 opacity)
      \<and> strokes (frame (fst (drawLine pr c p1 p2 opacity))) =
          strokes (frame c) @ [(segment p1 p2, Colour (Rgba 255 255 255 opacity))])"
  by (simp add: drawLine_def Let_def strokes_def split: prod.splits)

theorem drawLine_gradient_ignores_opacity_witness:
  "lineStyle (effects gradientProps) = ''gradient''
   \<and> drawLine gradientProps blankCtx fastParticle rightParticle 0.2 =
       drawLine gradientProps blankCtx fastParticle rightParticle 0
   \<and> strokes (frame (fst (drawLine gradientProps blankCtx fastParticle rightParticle 0.2))) =
       [(Polyline [(3, 4), (205, 8)], LinearGradient 3 4 205 8 [(0, Hsl 120 100 100), (1, Hsl 240 100 100)])]
   \<and> lineStyle (effects initialProps) \<noteq> ''gradient''
   \<and> strokes (frame (fst (drawLine initialProps blankCtx fastParticle rightParticle 0.2))) =
       [(Polyline [(3, 4), (205, 8)], Colour (Rgba 255 255 255 0.2))]"
proof -
  have gradient: "lineStyle (effects gradientProps) = ''gradient''"
    by (simp add: gradientProps_def initialProps_def)
  have solid: "lineStyle (effects initialProps) \<noteq> ''gradient''"
    by (simp add: initialProps_def initialEffects_def)
  have colours: "fst (getParticleColor gradientProps fastParticle) = Hsl 120 100 100"
      "fst (getParticleColor gradientProps rightParticle) = Hsl 240 100 100"
    by (simp_all add: getParticleColor_def gradientProps_def initialProps_def initialEffects_def
        fastParticle_def rightParticle_def)
  have ends: "segment fastParticle rightParticle = Polyline [(3, 4), (205, 8)]"
      "p_x fastParticle = 3" "p_y fastParticle = 4" "p_x rightParticle = 205" "p_y rightParticle = 8"
    by (simp_all add: segment_def fastParticle_def rightParticle_def)
  have blank: "strokes (frame blankCtx) = []"
    by (simp add: strokes_def blankCtx_def)
  have same: "drawLine gradientProps blankCtx fastParticle rightParticle 0.2 =
        drawLine gradientProps blankCtx fastParticle rightParticle 0"
    and "strokes (frame (fst (drawLine gradientProps blankCtx fastParticle rightParticle 0.2))) =
          strokes (frame blankCtx) @
            [(segment fastParticle rightParticle,
              LinearGradient (p_x fastParticle) (p_y fastParticle) (p_x rightParticle) (p_y rightParticle)
               [(0, fst (getParticleColor gradientProps fastParticle)),
                (1, fst (getParticleColor gradientProps rightParticle))])]"
    using drawLine_gradient_ignores_opacity [of gradientProps blankCtx fastParticle rightParticle "0.2" 0] gradient
    by blast+
  then have "strokes (frame (fst (drawLine gradientProps blankCtx fastParticle rightParticle 0.2))) =
       [(Polyline [(3, 4), (205, 8)], LinearGradient 3 4 205 8 [(0, Hsl 120 100 100), (1, Hsl 240 100 100)])]"
    by (simp only: colours ends blank append_Nil)
  moreover have "strokes (frame (fst (drawLine initialProps blankCtx fastParticle rightParticle 0.2))) =
          strokes (frame blankCtx) @ [(segment fastParticle rightParticle, Colour (Rgba 255 255 255 0.2))]"
    using drawLine_gradient_ignores_opacity [of initialProps blankCtx fastParticle rightParticle "0.2" 0] solid
    by blast
  then have "strokes (frame (fst (drawLine initialProps blankCtx fastParticle rightParticle 0.2))) =
       [(Polyline [(3, 4), (205, 8)], Colour (Rgba 255 255 255 0.2))]"
    by (simp only: ends blank append_Nil)
  ultimately show ?thesis
    using gradient solid same by blast
qed

section \<open>What colour resolution leaves alone\<close>

lemma bare_getParticleColor: "bare (snd (getParticleColor pr p)) = bare p"
  by (simp add: bare_def getParticleColor_def Let_def)

lemma segment_bare: "segment (bare a) (bare b) = segment a b"
  by (simp add: segment_def bare_def)

lemma distance_bare: "distance (bare a) (bare b) = distance a b"
  by (simp add: distance_def bare_def)

lemma particlePath_bare: "particlePath pr (bare p) = particlePath pr p"
  by (simp add: particlePath_def bare_def Let_def)

lemma kinematics_bare: "kinematics (bare p) = kinematics p"
  by (simp add: kinematics_def bare_def)

lemma repulse_hue: "repulse pr m (p\<lparr>p_hue := h\<rparr>) = (repulse pr m p)\<lparr>p_hue := h\<rparr>"
  by (simp add: repulse_def Let_def)

lemma speedFloor_hue: "speedFloor (p\<lparr>p_hue := h\<rparr>) = (speedFloor p)\<lparr>p_hue := h\<rparr>"
  by (simp add: speedFloor_def speed_def Let_def)

lemma integrate_hue: "integrate (p\<lparr>p_hue := h\<rparr>) = (integrate p)\<lparr>p_hue := h\<rparr>"
  by (simp add: integrate_def)

lemma bounceX_hue: "bounceX cv (p\<lparr>p_hue := h\<rparr>) = (bounceX cv p)\<lparr>p_hue := h\<rparr>"
  by (simp add: bounceX_def)

lemma bounceY_hue: "bounceY cv (p\<lparr>p_hue := h\<rparr>) = (bounceY cv p)\<lparr>p_hue := h\<rparr>"
  by (simp add: bounceY_def)

lemma stepParticle_hue:
  "stepParticle pr cv m (p\<lparr>p_hue := h\<rparr>) = (stepParticle pr cv m p)\<lparr>p_hue := h\<rparr>"
  by (simp only: stepParticle_def bounce_def repulse_hue speedFloor_hue integrate_hue
      bounceX_hue bounceY_hue if_distrib [of "\<lambda>q. q\<lparr>p_hue := h\<rparr>", symmetric] split: if_splits)

lemma stepParticle_bare: "stepParticle pr cv m (bare p) = bare (stepParticle pr cv m p)"
  by (simp only: bare_def stepParticle_hue)

lemma bare_eq_segment: "bare a = bare a' \<Longrightarrow> bare b = bare b' \<Longrightarrow> segment a b = segment a' b'"
  by (metis segment_bare)

lemma bare_eq_distance: "bare a = bare a' \<Longrightarrow> bare b = bare b' \<Longrightarrow> distance a b = distance a' b'"
  by (metis distance_bare)

lemma bare_eq_particlePath: "bare p = bare p' \<Longrightarrow> particlePath pr p = particlePath pr p'"
  by (metis particlePath_bare)

lemma bare_eq_kinematics: "bare p = bare p' \<Longrightarrow> kinematics p = kinematics p'"
  by (metis kinematics_bare)

lemma connections_bare: "connections pr (map (map_prod bare bare) pairs) = connections pr pairs"
  by (induction pairs) (auto simp: connections_def segment_bare distance_bare)

lemma connections_append: "connections pr (xs @ ys) = connections pr xs @ connections pr ys"
  by (simp add: connections_def)

lemma visited_bare:
  assumes "\<And>p. f (bare p) = bare (f p)"
  shows "map (map_prod bare bare) (visited f ps) = visited f (map bare ps)"
  by (induction ps) (simp_all add: assms comp_def)

lemma connections_visited_cong:
  assumes "\<And>p. f (bare p) = bare (f p)" and "map bare ps = map bare qs"
  shows "connections pr (visited f ps) = connections pr (visited f qs)"
proof -
  have "connections pr (visited f ps) = connections pr (visited f (map bare ps))"
    using visited_bare [of f ps] assms(1) connections_bare [of pr "visited f ps"] by simp
  also have "\<dots> = connections pr (visited f (map bare qs))"
    using assms(2) by simp
  also have "\<dots> = connections pr (visited f qs)"
    using visited_bare [of f qs] assms(1) connections_bare [of pr "visited f qs"] by simp
  finally show ?thesis .
qed

lemma connections_Pair_cong:
  assumes "bare a = bare a'"
  shows "connections pr (map (Pair a) qs) = connections pr (map (Pair a') qs)"
proof -
  have same: "map (map_prod bare bare) (map (Pair a) qs) = map (map_prod bare bare) (map (Pair a') qs)"
    using assms by simp
  have "connections pr (map (Pair a) qs) = connections pr (map (map_prod bare bare) (map (Pair a) qs))"
    by (simp only: connections_bare)
  also have "\<dots> = connections pr (map (map_prod bare bare) (map (Pair a') qs))"
    by (simp only: same)
  also have "\<dots> = connections pr (map (Pair a') qs)"
    by (simp only: connections_bare)
  finally show ?thesis .
qed

section \<open>Frames: what each drawing function paints\<close>

lemma fillPaths_append [simp]: "fillPaths (xs @ ys) = fillPaths xs @ fillPaths ys"
  by (simp add: fillPaths_def)

lemma strokes_append [simp]: "strokes (xs @ ys) = strokes xs @ strokes ys"
  by (simp add: strokes_def)

lemma drawParticle_paints:
  assumes "drawParticle pr c p = (c', p')"
  shows "bare p' = bare p"
    and "fillPaths (frame c') = fillPaths (frame c) @ [particlePath pr p]"
    and "strokes (frame c') = strokes (frame c)"
proof -
  obtain color q where col: "getParticleColor pr p = (color, q)"
    by (cases "getParticleColor pr p")
  then have q: "bare q = bare p"
    using bare_getParticleColor [of pr p] by simp
  from assms col have p': "p' = q"
    by (simp add: drawParticle_def Let_def)
  from q p' show "bare p' = bare p" by simp
  from assms col show "fillPaths (frame c') = fillPaths (frame c) @ [particlePath pr p]"
    using bare_eq_particlePath [OF q, of pr]
    by (auto simp: drawParticle_def Let_def fillPaths_def)
  from assms col show "strokes (frame c') = strokes (frame c)"
    by (auto simp: drawParticle_def Let_def strokes_def)
qed

lemma drawLine_paints:
  assumes "drawLine pr c p q opacity = (c', p', q')"
  shows "bare p' = bare p" and "bare q' = bare q"
    and "fillPaths (frame c') = fillPaths (frame c)"
    and "map fst (strokes (frame c')) = map fst (strokes (frame c)) @ [segment p q]"
proof -
  from assms show "bare p' = bare p"
    using bare_getParticleColor [of pr p]
    by (auto simp: drawLine_def Let_def split: if_splits prod.splits)
  from assms show "bare q' = bare q"
    using bare_getParticleColor [of pr q]
    by (auto simp: drawLine_def Let_def split: if_splits prod.splits)
  from assms show "fillPaths (frame c') = fillPaths (frame c)"
    by (auto simp: drawLine_def Let_def fillPaths_def split: if_splits prod.splits)
  from assms show "map fst (strokes (frame c')) = map fst (strokes (frame c)) @ [segment p q]"
    by (auto simp: drawLine_def Let_def strokes_def split: if_splits prod.splits)
qed

lemma drawLine_plain:
  assumes "lineStyle (effects pr) \<noteq> ''gradient''"
  shows "snd (drawLine pr c p q opacity) = (p, q)"
    and "strokes (frame (fst (drawLine pr c p q opacity))) =
           strokes (frame c) @ [(segment p q, Colour (Rgba 255 255 255 opacity))]"
  using assms by (simp_all add: drawLine_def Let_def strokes_def)

lemma connect_paints:
  assumes "connect pr c p rest = (c', p', rest')"
  shows "bare p' = bare p \<and> map bare rest' = map bare rest
    \<and> fillPaths (frame c') = fillPaths (frame c)
    \<and> map fst (strokes (frame c')) =
        map fst (strokes (frame c)) @ connections pr (map (Pair p) rest)"
  using assms
proof (induction rest arbitrary: c p c' p' rest')
  case Nil
  then show ?case by (simp add: connections_def)
next
  case (Cons q rest)
  show ?case
  proof (cases "distance p q < connectionDistance (effects pr)")
    case True
    obtain c1 p1 q1 where line: "drawLine pr c p q (lineOpacity pr (distance p q)) = (c1, p1, q1)"
      by (cases "drawLine pr c p q (lineOpacity pr (distance p q))")
    obtain c2 p2 rest2 where rec: "connect pr c1 p1 rest = (c2, p2, rest2)"
      by (cases "connect pr c1 p1 rest")
    from Cons.prems True line rec have res: "c' = c2" "p' = p2" "rest' = q1 # rest2"
      by simp_all
    note l = drawLine_paints [OF line]
    note ih = Cons.IH [OF rec]
    have "connections pr (map (Pair p1) rest) = connections pr (map (Pair p) rest)"
      using connections_Pair_cong [OF l(1)] .
    moreover have "connections pr (map (Pair p) (q # rest)) =
        segment p q # connections pr (map (Pair p) rest)"
      using True by (simp add: connections_def)
    ultimately show ?thesis
      using l ih res by simp
  next
    case False
    obtain c2 p2 rest2 where rec: "connect pr c p rest = (c2, p2, rest2)"
      by (cases "connect pr c p rest")
    from Cons.prems False rec have res: "c' = c2" "p' = p2" "rest' = q # rest2"
      by simp_all
    note ih = Cons.IH [OF rec]
    have "connections pr (map (Pair p) (q # rest)) = connections pr (map (Pair p) rest)"
      using False by (simp add: connections_def)
    then show ?thesis
      using ih res by simp
  qed
qed

lemma connect_plain:
  assumes "lineStyle (effects pr) \<noteq> ''gradient''"
  shows "connect pr c p rest =
     (fst (connect pr c p rest), p, rest)
   \<and> strokes (frame (fst (connect pr c p rest))) =
       strokes (frame c) @
         map (\<lambda>q. (segment p q, Colour (Rgba 255 255 255 (lineOpacity pr (distance p q)))))
           (filter (\<lambda>q. distance p q < connectionDistance (effects pr)) rest)"
proof (induction rest arbitrary: c)
  case Nil
  then show ?case by simp
next
  case (Cons q rest)
  show ?case
  proof (cases "distance p q < connectionDistance (effects pr)")
    case True
    define c1 where "c1 = fst (drawLine pr c p q (lineOpacity pr (distance p q)))"
    have line: "drawLine pr c p q (lineOpacity pr (distance p q)) = (c1, p, q)"
      using drawLine_plain(1) [OF assms, of c p q "lineOpacity pr (distance p q)"]
      by (simp add: c1_def prod_eq_iff)
    have painted: "strokes (frame c1) = strokes (frame c) @
        [(segment p q, Colour (Rgba 255 255 255 (lineOpacity pr (distance p q))))]"
      using drawLine_plain(2) [OF assms, of c p q "lineOpacity pr (distance p q)"]
      by (simp add: c1_def)
    from Cons.IH [of c1] have ih: "connect pr c1 p rest = (fst (connect pr c1 p rest), p, rest)"
      and ih2: "strokes (frame (fst (connect pr c1 p rest))) =
       strokes (frame c1) @
         map (\<lambda>q. (segment p q, Colour (Rgba 255 255 255 (lineOpacity pr (distance p q)))))
           (filter (\<lambda>q. distance p q < connectionDistance (effects pr)) rest)"
      by simp_all
    have step: "connect pr c p (q # rest) = (fst (connect pr c1 p rest), p, q # rest)"
      using True line ih by (simp add: prod_eq_iff split: prod.splits)
    then show ?thesis
      using True ih2 painted by simp
  next
    case False
    from Cons.IH [of c] have ih: "connect pr c p rest = (fst (connect pr c p rest), p, rest)"
      and ih2: "strokes (frame (fst (connect pr c p rest))) =
       strokes (frame c) @
         map (\<lambda>q. (segment p q, Colour (Rgba 255 255 255 (lineOpacity pr (distance p q)))))
           (filter (\<lambda>q. distance p q < connectionDistance (effects pr)) rest)"
      by simp_all
    have step: "connect pr c p (q # rest) = (fst (connect pr c p rest), p, q # rest)"
      using False ih by (simp add: prod_eq_iff split: prod.splits)
    then show ?thesis
      using False ih2 by simp
  qed
qed

section \<open>The loop of \<^verbatim>\<open>draw\<close> against simulate-then-render\<close>

lemma map_step_bare:
  "map (bare \<circ> stepParticle pr cv m) qs = map (stepParticle pr cv m) (map bare qs)"
  by (induction qs) (simp_all add: stepParticle_bare)

lemma map_particlePath_bare: "map (particlePath pr) (map bare qs) = map (particlePath pr) qs"
  by (induction qs) (simp_all add: particlePath_bare)

lemma map_kinematics_bare: "map kinematics (map bare qs) = map kinematics qs"
  by (induction qs) (simp_all add: kinematics_bare)

lemma drawLoop_paints:
  assumes "drawLoop pr cv m c ps = (c', ps')"
  shows "map bare ps' = map (bare \<circ> stepParticle pr cv m) ps
    \<and> fillPaths (frame c') = fillPaths (frame c) @ map (particlePath pr \<circ> stepParticle pr cv m) ps
    \<and> map fst (strokes (frame c')) =
        map fst (strokes (frame c)) @ connections pr (visited (stepParticle pr cv m) ps)"
  using assms
proof (induction ps arbitrary: c c' ps' rule: measure_induct_rule [where f = length])
  case (less ps)
  show ?case
  proof (cases ps)
    case Nil
    with less.prems show ?thesis by (simp add: connections_def)
  next
    case (Cons p rest)
    obtain c1 p1 where dp: "drawParticle pr c (stepParticle pr cv m p) = (c1, p1)"
      by (cases "drawParticle pr c (stepParticle pr cv m p)")
    obtain c2 p2 rest2 where cn: "connect pr c1 p1 rest = (c2, p2, rest2)"
      by (cases "connect pr c1 p1 rest")
    obtain c3 rest3 where rec: "drawLoop pr cv m c2 rest2 = (c3, rest3)"
      by (cases "drawLoop pr cv m c2 rest2")
    from less.prems Cons dp cn rec have res: "c' = c3" "ps' = p2 # rest3"
      by simp_all
    note a = drawParticle_paints [OF dp]
    note b = connect_paints [OF cn]
    have "length rest2 < length ps"
      using connect_length [OF cn] Cons by simp
    note ih = less.IH [OF this rec]
    have same: "map bare rest2 = map bare rest" using b by simp
    have head: "bare p2 = bare (stepParticle pr cv m p)"
      using a(1) b by simp
    have tail: "map (bare \<circ> stepParticle pr cv m) rest2 = map (bare \<circ> stepParticle pr cv m) rest"
      by (simp only: map_step_bare same)
    have shapes: "map (particlePath pr \<circ> stepParticle pr cv m) rest2 =
        map (particlePath pr \<circ> stepParticle pr cv m) rest"
    proof -
      have "map (particlePath pr \<circ> stepParticle pr cv m) qs =
          map (particlePath pr) (map (bare \<circ> stepParticle pr cv m) qs)" for qs
        using map_particlePath_bare [of pr "map (stepParticle pr cv m) qs"] by simp
      then show ?thesis by (simp only: tail)
    qed
    have lines1: "connections pr (map (Pair p1) rest) =
        connections pr (map (Pair (stepParticle pr cv m p)) rest)"
      using connections_Pair_cong [OF a(1)] .
    have lines2: "connections pr (visited (stepParticle pr cv m) rest2) =
        connections pr (visited (stepParticle pr cv m) rest)"
      by (rule connections_visited_cong [of "stepParticle pr cv m"]) (simp_all only: stepParticle_bare same)
    from ih have ih1: "map bare rest3 = map (bare \<circ> stepParticle pr cv m) rest2"
      and ih2: "fillPaths (frame c3) =
          fillPaths (frame c2) @ map (particlePath pr \<circ> stepParticle pr cv m) rest2"
      and ih3: "map fst (strokes (frame c3)) =
          map fst (strokes (frame c2)) @ connections pr (visited (stepParticle pr cv m) rest2)"
      by simp_all
    from b have b3: "fillPaths (frame c2) = fillPaths (frame c1)"
      and b4: "map fst (strokes (frame c2)) =
          map fst (strokes (frame c1)) @ connections pr (map (Pair p1) rest)"
      by simp_all
    have 1: "map bare ps' = map (bare \<circ> stepParticle pr cv m) ps"
      using res Cons head ih1 tail by simp
    have 2: "fillPaths (frame c') =
        fillPaths (frame c) @ map (particlePath pr \<circ> stepParticle pr cv m) ps"
      using res Cons ih2 shapes b3 a(2) by simp
    have 3: "map fst (strokes (frame c')) =
        map fst (strokes (frame c)) @ connections pr (visited (stepParticle pr cv m) ps)"
      using res Cons ih3 lines2 b4 lines1 a(3) by (simp add: connections_append)
    from 1 2 3 show ?thesis by simp
  qed
qed

lemma spec_render_paints:
  assumes "spec_render pr c ps = (c', ps')"
  shows "map bare ps' = map bare ps
    \<and> fillPaths (frame c') = fillPaths (frame c) @ map (particlePath pr) ps
    \<and> map fst (strokes (frame c')) =
        map fst (strokes (frame c)) @ connections pr (visited (\<lambda>p. p) ps)"
  using assms
proof (induction ps arbitrary: c c' ps' rule: measure_induct_rule [where f = length])
  case (less ps)
  show ?case
  proof (cases ps)
    case Nil
    with less.prems show ?thesis by (simp add: connections_def)
  next
    case (Cons p rest)
    obtain c1 p1 where dp: "drawParticle pr c p = (c1, p1)"
      by (cases "drawParticle pr c p")
    obtain c2 p2 rest2 where cn: "connect pr c1 p1 rest = (c2, p2, rest2)"
      by (cases "connect pr c1 p1 rest")
    obtain c3 rest3 where rec: "spec_render pr c2 rest2 = (c3, rest3)"
      by (cases "spec_render pr c2 rest2")
    from less.prems Cons dp cn rec have res: "c' = c3" "ps' = p2 # rest3"
      by simp_all
    note a = drawParticle_paints [OF dp]
    note b = connect_paints [OF cn]
    have "length rest2 < length ps"
      using connect_length [OF cn] Cons by simp
    note ih = less.IH [OF this rec]
    have same: "map bare rest2 = map bare rest" using b by simp
    have head: "bare p2 = bare p"
      using a(1) b by simp
    have shapes: "map (particlePath pr) rest2 = map (particlePath pr) rest"
      using map_particlePath_bare [of pr rest2] map_particlePath_bare [of pr rest]
      by (simp only: same)
    have lines1: "connections pr (map (Pair p1) rest) = connections pr (map (Pair p) rest)"
      using connections_Pair_cong [OF a(1)] .
    have lines2: "connections pr (visited (\<lambda>p. p) rest2) = connections pr (visited (\<lambda>p. p) rest)"
      by (rule connections_visited_cong [of "\<lambda>p. p"]) (simp_all only: same)
    from ih have ih1: "map bare rest3 = map bare rest2"
      and ih2: "fillPaths (frame c3) = fillPaths (frame c2) @ map (particlePath pr) rest2"
      and ih3: "map fst (strokes (frame c3)) =
          map fst (strokes (frame c2)) @ connections pr (visited (\<lambda>p. p) rest2)"
      by simp_all
    from b have b3: "fillPaths (frame c2) = fillPaths (frame c1)"
      and b4: "map fst (strokes (frame c2)) =
          map fst (strokes (frame c1)) @ connections pr (map (Pair p1) rest)"
      by simp_all
    have 1: "map bare ps' = map bare ps"
      using res Cons head ih1 same by simp
    have 2: "fillPaths (frame c') = fillPaths (frame c) @ map (particlePath pr) ps"
      using res Cons ih2 shapes b3 a(2) by simp
    have 3: "map fst (strokes (frame c')) =
        map fst (strokes (frame c)) @ connections pr (visited (\<lambda>p. p) ps)"
      using res Cons ih3 lines2 b4 lines1 a(3) by (simp add: connections_append)
    from 1 2 3 show ?thesis by simp
  qed
qed

lemma kinematics_of_bare:
  assumes "map bare ps' = map (bare \<circ> f) ps"
  shows "map kinematics ps' = map (kinematics \<circ> f) ps"
proof -
  have "map kinematics ps' = map kinematics (map bare ps')"
    by (simp only: map_kinematics_bare)
  also have "\<dots> = map kinematics (map bare (map f ps))"
    using assms by simp
  also have "\<dots> = map kinematics (map f ps)"
    by (simp only: map_kinematics_bare)
  finally show ?thesis by simp
qed

lemma drawLoop_kinematics:
  "map kinematics (snd (drawLoop pr cv m c ps)) = map (kinematics \<circ> stepParticle pr cv m) ps"
proof -
  obtain c' ps' where r: "drawLoop pr cv m c ps = (c', ps')"
    by (cases "drawLoop pr cv m c ps")
  from drawLoop_paints [OF r] have "map bare ps' = map (bare \<circ> stepParticle pr cv m) ps"
    by simp
  from kinematics_of_bare [OF this] r show ?thesis by simp
qed

lemma drawLoop_fills:
  "fillPaths (frame (fst (drawLoop pr cv m c ps))) =
     fillPaths (frame c) @ map (particlePath pr \<circ> stepParticle pr cv m) ps"
  using drawLoop_paints [of pr cv m c ps]
  by (cases "drawLoop pr cv m c ps") simp

lemma drawLoop_lines:
  "map fst (strokes (frame (fst (drawLoop pr cv m c ps)))) =
     map fst (strokes (frame c)) @ connections pr (visited (stepParticle pr cv m) ps)"
  using drawLoop_paints [of pr cv m c ps]
  by (cases "drawLoop pr cv m c ps") simp

lemma spec_kinematics:
  "map kinematics (snd (spec_simulateThenRender pr cv m c ps)) =
     map (kinematics \<circ> stepParticle pr cv m) ps"
proof -
  obtain c' ps' where r: "spec_render pr c (map (stepParticle pr cv m) ps) = (c', ps')"
    by (cases "spec_render pr c (map (stepParticle pr cv m) ps)")
  from spec_render_paints [OF r] have "map bare ps' = map (bare \<circ> stepParticle pr cv m) ps"
    by simp
  from kinematics_of_bare [OF this] r show ?thesis
    by (simp add: spec_simulateThenRender_def)
qed

lemma spec_fills:
  "fillPaths (frame (fst (spec_simulateThenRender pr cv m c ps))) =
     fillPaths (frame c) @ map (particlePath pr \<circ> stepParticle pr cv m) ps"
  using spec_render_paints [of pr c "map (stepParticle pr cv m) ps"]
  by (cases "spec_render pr c (map (stepParticle pr cv m) ps)")
     (simp add: spec_simulateThenRender_def)

lemma spec_lines:
  "map fst (strokes (frame (fst (spec_simulateThenRender pr cv m c ps)))) =
     map fst (strokes (frame c)) @
       connections pr (visited (\<lambda>p. p) (map (stepParticle pr cv m) ps))"
  using spec_render_paints [of pr c "map (stepParticle pr cv m) ps"]
  by (cases "spec_render pr c (map (stepParticle pr cv m) ps)")
     (simp add: spec_simulateThenRender_def)

section \<open>Connection lines: the threshold and the opacity\<close>

lemma visited_length: "2 * length (visited f ps) = length ps * (length ps - 1)"
proof (induction ps)
  case Nil
  then show ?case by simp
next
  case (Cons p rest)
  then show ?case by (cases rest) (simp_all add: algebra_simps)
qed

lemma connections_Pair:
  "connections pr (map (Pair p) rest) =
     map (segment p) (filter (\<lambda>q. distance p q < connectionDistance (effects pr)) rest)"
  by (induction rest) (simp_all add: connections_def)

lemma connect_lines:
  "map fst (strokes (frame (fst (connect pr c p rest)))) =
     map fst (strokes (frame c)) @
       map (segment p) (filter (\<lambda>q. distance p q < connectionDistance (effects pr)) rest)"
proof -
  obtain c' p' rest' where r: "connect pr c p rest = (c', p', rest')"
    by (cases "connect pr c p rest")
  from connect_paints [OF r] r show ?thesis
    by (simp add: connections_Pair)
qed

lemma lineOpacity_decreasing:
  assumes "0 < connectionDistance (effects pr)" and "d < d'"
  shows "lineOpacity pr d' < lineOpacity pr d"
proof -
  have "d / connectionDistance (effects pr) < d' / connectionDistance (effects pr)"
    using assms by (simp add: divide_strict_right_mono)
  then have "1 - d' / connectionDistance (effects pr) < 1 - d / connectionDistance (effects pr)"
    by linarith
  then have "(1 / 5) * (1 - d' / connectionDistance (effects pr)) <
      (1 / 5) * (1 - d / connectionDistance (effects pr))"
    by (rule mult_strict_left_mono) simp
  then show ?thesis by (simp add: lineOpacity_def)
qed

lemma distance_fast_near: "distance fastParticle nearParticle = 5"
proof -
  have "sqrt ((3 - 6) * (3 - 6) + (4 - 8) * (4 - 8)) = (5::real)" by simp
  then show ?thesis by (simp add: distance_def fastParticle_def nearParticle_def)
qed

lemma distance_fast_far: "distance fastParticle farParticle = 300"
proof -
  have "sqrt ((3 - 303) * (3 - 303) + (4 - 4) * (4 - 4)) = (300::real)" by simp
  then show ?thesis by (simp add: distance_def fastParticle_def farParticle_def)
qed

lemma initialProps_fields:
  "lineStyle (effects initialProps) = ''solid''"
  "colorMode (effects initialProps) = ''solid''"
  "connectionDistance (effects initialProps) = 200"
  "interactive initialProps"
  by (simp_all add: initialProps_def initialEffects_def)

lemma plainProps_fields:
  "lineStyle (effects plainProps) = ''solid''"
  "colorMode (effects plainProps) = ''solid''"
  "connectionDistance (effects plainProps) = 200"
  "\<not> interactive plainProps"
  by (simp_all add: plainProps_def initialProps_def initialEffects_def)

text \<open>
  Claim C5, as amended. A tick looks at every unordered pair of particles once (\<open>i < j\<close>,
  when particle \<open>i\<close> is visited) and draws a connection line for exactly the pairs whose
  Euclidean distance is then strictly below \<open>connectionDistance\<close>. Outside the gradient
  style the stroke is white with alpha \<open>0.2 * (1 - distance / connectionDistance)\<close>. For a
  positive connection distance this opacity is strictly decreasing in the distance and is
  0 at \<open>distance = connectionDistance\<close>; at distance 0 it is 0.2, its largest value, not
  full opacity.
\<close>

theorem connect_threshold_opacity:
  "map fst (strokes (frame (fst (connect pr c p rest)))) =
     map fst (strokes (frame c)) @
       map (segment p) (filter (\<lambda>q. distance p q < connectionDistance (effects pr)) rest)
   \<and> map fst (strokes (frame (fst (drawLoop pr cv m c ps)))) =
       map fst (strokes (frame c)) @ connections pr (visited (stepParticle pr cv m) ps)
   \<and> 2 * length (visited (stepParticle pr cv m) ps) = length ps * (length ps - 1)
   \<and> (lineStyle (effects pr) \<noteq> ''gradient'' \<longrightarrow>
        strokes (frame (fst (connect pr c p rest))) =
          strokes (frame c) @
            map (\<lambda>q. (segment p q, Colour (Rgba 255 255 255 (lineOpacity pr (distance p q)))))
              (filter (\<lambda>q. distance p q < connectionDistance (effects pr)) rest))
   \<and> lineOpacity pr d = 0.2 * (1 - d / connectionDistance (effects pr))
   \<and> (0 < connectionDistance (effects pr) \<longrightarrow>
        (d < d' \<longrightarrow> lineOpacity pr d' < lineOpacity pr d)
        \<and> lineOpacity pr (connectionDistance (effects pr)) = 0
        \<and> lineOpacity pr 0 = 0.2)"
proof -
  have "lineStyle (effects pr) \<noteq> ''gradient'' \<Longrightarrow>
        strokes (frame (fst (connect pr c p rest))) =
          strokes (frame c) @
            map (\<lambda>q. (segment p q, Colour (Rgba 255 255 255 (lineOpacity pr (distance p q)))))
              (filter (\<lambda>q. distance p q < connectionDistance (effects pr)) rest)"
    using connect_plain [of pr c p rest] by simp
  moreover have "0 < connectionDistance (effects pr) \<Longrightarrow>
      lineOpacity pr (connectionDistance (effects pr)) = 0 \<and> lineOpacity pr 0 = 0.2"
    by (simp add: lineOpacity_def)
  moreover have "lineOpacity pr d = 0.2 * (1 - d / connectionDistance (effects pr))"
    by (simp add: lineOpacity_def)
  ultimately show ?thesis
    using connect_lines [of pr c p rest] lineOpacity_decreasing [of pr d d']
      drawLoop_lines [of pr cv m c ps] visited_length [of "stepParticle pr cv m" ps]
    by blast
qed

theorem connect_threshold_opacity_witness:
  "lineStyle (effects initialProps) \<noteq> ''gradient''
   \<and> 0 < connectionDistance (effects initialProps)
   \<and> distance fastParticle nearParticle = 5 \<and> distance fastParticle farParticle = 300
   \<and> strokes (frame (fst (connect initialProps blankCtx fastParticle [nearParticle, farParticle]))) =
       [(Polyline [(3, 4), (6, 8)], Colour (Rgba 255 255 255 (39 / 200)))]
   \<and> (50::real) < 100
   \<and> lineOpacity initialProps 100 < lineOpacity initialProps 50
   \<and> lineOpacity initialProps 200 = 0
   \<and> lineOpacity initialProps 0 = 0.2"
proof -
  have style: "lineStyle (effects initialProps) \<noteq> ''gradient''"
    and cd: "0 < connectionDistance (effects initialProps)"
    by (simp_all add: initialProps_fields)
  have lt: "(50::real) < 100" by simp
  note inst = connect_threshold_opacity [of initialProps blankCtx fastParticle
      "[nearParticle, farParticle]" readyCanvas "(0, 0)" "[]" 50 100]
  from inst style have "strokes (frame (fst (connect initialProps blankCtx fastParticle [nearParticle, farParticle]))) =
          strokes (frame blankCtx) @
            map (\<lambda>q. (segment fastParticle q, Colour (Rgba 255 255 255 (lineOpacity initialProps (distance fastParticle q)))))
              (filter (\<lambda>q. distance fastParticle q < connectionDistance (effects initialProps)) [nearParticle, farParticle])"
    by blast
  then have drawn: "strokes (frame (fst (connect initialProps blankCtx fastParticle [nearParticle, farParticle]))) =
       [(Polyline [(3, 4), (6, 8)], Colour (Rgba 255 255 255 (39 / 200)))]"
    by (simp add: distance_fast_near distance_fast_far initialProps_fields lineOpacity_def
        strokes_def blankCtx_def) (simp add: segment_def fastParticle_def nearParticle_def)
  from inst cd lt have "lineOpacity initialProps 100 < lineOpacity initialProps 50"
    and "lineOpacity initialProps (connectionDistance (effects initialProps)) = 0"
    and "lineOpacity initialProps 0 = 0.2"
    by blast+
  with drawn style cd lt show ?thesis
    by (simp add: distance_fast_near distance_fast_far initialProps_fields)
qed

text \<open>
  Against claim C5 as it was stated ("fully opaque at distance 0"): two particles at the same
  place are joined by a line of alpha 0.2.
\<close>

theorem connect_distance_zero_not_opaque:
  "distance fastParticle fastParticle = 0
   \<and> strokes (frame (fst (connect initialProps blankCtx fastParticle [fastParticle]))) =
       [(Polyline [(3, 4), (3, 4)], Colour (Rgba 255 255 255 (1 / 5)))]
   \<and> lineOpacity initialProps 0 \<noteq> 1"
proof -
  have zero: "distance fastParticle fastParticle = 0"
    by (simp add: distance_def)
  have "strokes (frame (fst (connect initialProps blankCtx fastParticle [fastParticle]))) =
       [(Polyline [(3, 4), (3, 4)], Colour (Rgba 255 255 255 (1 / 5)))]"
    by (simp add: zero initialProps_fields lineOpacity_def drawLine_def Let_def
        strokes_def blankCtx_def) (simp add: segment_def fastParticle_def)
  moreover have "lineOpacity initialProps 0 \<noteq> 1"
    by (simp add: lineOpacity_def)
  ultimately show ?thesis using zero by simp
qed

section \<open>Example ticks\<close>

lemma speed_rightParticle: "speed rightParticle = 5"
proof -
  have "sqrt ((5::real) * 5 + 0 * 0) = 5" by simp
  then show ?thesis by (simp add: speed_def rightParticle_def)
qed

lemma speed_strayParticle: "speed strayParticle = 5"
proof -
  have "sqrt ((3::real) * 3 + 4 * 4) = 5" by simp
  then show ?thesis by (simp add: speed_def strayParticle_def)
qed

lemma plain_step:
  assumes "1 \<le> speed p"
  shows "stepParticle plainProps cv m p = bounce cv (integrate p)"
  using assms by (simp add: stepParticle_def plainProps_fields speedFloor_def baseSpeed_def)

lemma step_fastParticle:
  "stepParticle plainProps readyCanvas (0, 0) fastParticle = fastParticle\<lparr>p_x := 6, p_y := 8\<rparr>"
  by (simp add: plain_step speed_fastParticle)
     (simp add: bounce_def bounceX_def bounceY_def integrate_def fastParticle_def readyCanvas_def)

lemma step_rightParticle:
  "stepParticle plainProps readyCanvas (0, 0) rightParticle = rightParticle\<lparr>p_x := 210\<rparr>"
  by (simp add: plain_step speed_rightParticle)
     (simp add: bounce_def bounceX_def bounceY_def integrate_def rightParticle_def readyCanvas_def)

lemma step_strayParticle:
  "stepParticle plainProps readyCanvas (0, 0) strayParticle =
     strayParticle\<lparr>p_x := 1000, p_y := 1000, p_vx := - 3, p_vy := - 4\<rparr>"
  by (simp add: plain_step speed_strayParticle)
     (simp add: bounce_def bounceX_def bounceY_def integrate_def strayParticle_def readyCanvas_def)

lemma distance_stepped_fast_right:
  "distance (fastParticle\<lparr>p_x := 6, p_y := 8\<rparr>) rightParticle = 199"
  "distance (fastParticle\<lparr>p_x := 6, p_y := 8\<rparr>) (rightParticle\<lparr>p_x := 210\<rparr>) = 204"
proof -
  have "sqrt ((6 - 205) * (6 - 205) + (8 - 8) * (8 - 8)) = (199::real)" by simp
  then show "distance (fastParticle\<lparr>p_x := 6, p_y := 8\<rparr>) rightParticle = 199"
    by (simp add: distance_def fastParticle_def rightParticle_def)
  have "sqrt ((6 - 210) * (6 - 210) + (8 - 8) * (8 - 8)) = (204::real)" by simp
  then show "distance (fastParticle\<lparr>p_x := 6, p_y := 8\<rparr>) (rightParticle\<lparr>p_x := 210\<rparr>) = 204"
    by (simp add: distance_def fastParticle_def rightParticle_def)
qed

text \<open>
  Claim C7, as amended. The loop of \<^verbatim>\<open>draw\<close> leaves every particle with the position and
  velocity that simulate-then-render gives it, and paints the same particle shapes at the
  same positions in the same order. Its connection lines differ: for a pair \<open>i < j\<close> the
  loop tests and draws the segment from particle \<open>i\<close> after this tick's step to particle
  \<open>j\<close> before it, while simulate-then-render uses both particles after the step.
\<close>

theorem drawLoop_against_simulateThenRender:
  "map kinematics (snd (drawLoop pr cv m c ps)) = map (kinematics \<circ> stepParticle pr cv m) ps
   \<and> map kinematics (snd (spec_simulateThenRender pr cv m c ps)) =
       map (kinematics \<circ> stepParticle pr cv m) ps
   \<and> fillPaths (frame (fst (drawLoop pr cv m c ps))) =
       fillPaths (frame c) @ map (particlePath pr \<circ> stepParticle pr cv m) ps
   \<and> fillPaths (frame (fst (spec_simulateThenRender pr cv m c ps))) =
       fillPaths (frame c) @ map (particlePath pr \<circ> stepParticle pr cv m) ps
   \<and> map fst (strokes (frame (fst (drawLoop pr cv m c ps)))) =
       map fst (strokes (frame c)) @ connections pr (visited (stepParticle pr cv m) ps)
   \<and> map fst (strokes (frame (fst (spec_simulateThenRender pr cv m c ps)))) =
       map fst (strokes (frame c)) @
         connections pr (visited (\<lambda>p. p) (map (stepParticle pr cv m) ps))"
  using drawLoop_kinematics [of pr cv m c ps] spec_kinematics [of pr cv m c ps]
    drawLoop_fills [of pr cv m c ps] spec_fills [of pr cv m c ps]
    drawLoop_lines [of pr cv m c ps] spec_lines [of pr cv m c ps]
  by blast

text \<open>
  Against claim C7 as it was stated: two particles moving right, 199 apart when the first
  has moved and 204 apart when both have. The loop of \<^verbatim>\<open>draw\<close> connects them,
  simulate-then-render does not.
\<close>

theorem drawLoop_connects_stale_position:
  "map fst (strokes (frame (fst (drawLoop plainProps readyCanvas (0, 0) blankCtx
       [fastParticle, rightParticle])))) = [Polyline [(6, 8), (205, 8)]]
   \<and> map fst (strokes (frame (fst (spec_simulateThenRender plainProps readyCanvas (0, 0) blankCtx
       [fastParticle, rightParticle])))) = []"
proof -
  have blank: "strokes (frame blankCtx) = []"
    by (simp add: strokes_def blankCtx_def)
  have "connections plainProps (visited (stepParticle plainProps readyCanvas (0, 0))
      [fastParticle, rightParticle]) = [Polyline [(6, 8), (205, 8)]]"
    by (simp add: connections_def step_fastParticle distance_stepped_fast_right plainProps_fields)
       (simp add: segment_def fastParticle_def rightParticle_def)
  moreover have "connections plainProps (visited (\<lambda>p. p)
      (map (stepParticle plainProps readyCanvas (0, 0)) [fastParticle, rightParticle])) = []"
    by (simp add: connections_def step_fastParticle step_rightParticle
        distance_stepped_fast_right plainProps_fields)
  ultimately show ?thesis
    by (simp only: drawLoop_lines spec_lines blank list.map append_Nil)
qed

section \<open>The boundary invariant\<close>

lemma inside_bounce: "inside cv (bounce cv p)"
  by (simp add: inside_def bounce_def bounceX_def bounceY_def)

lemma inside_stepParticle: "inside cv (stepParticle pr cv m p)"
  by (simp only: stepParticle_def inside_bounce)

lemma inside_kinematics: "kinematics a = kinematics b \<Longrightarrow> inside cv a = inside cv b"
  by (simp add: kinematics_def inside_def)

lemma list_all_inside_kinematics:
  "map kinematics xs = map kinematics ys \<Longrightarrow> list_all (inside cv) ys \<Longrightarrow> list_all (inside cv) xs"
proof (induction xs arbitrary: ys)
  case Nil
  then show ?case by simp
next
  case (Cons x xs)
  then obtain y ys' where ys: "ys = y # ys'" by (cases ys) auto
  with Cons.prems have "kinematics x = kinematics y" "map kinematics xs = map kinematics ys'"
    "inside cv y" "list_all (inside cv) ys'"
    by simp_all
  then show ?case
    using Cons.IH [of ys'] inside_kinematics [of x y cv] by simp
qed

lemma drawLoop_inside: "list_all (inside cv) (snd (drawLoop pr cv m c ps))"
proof -
  have "list_all (inside cv) (map (stepParticle pr cv m) ps)"
    by (induction ps) (simp_all add: inside_stepParticle)
  moreover have "map kinematics (snd (drawLoop pr cv m c ps)) =
      map kinematics (map (stepParticle pr cv m) ps)"
    using drawLoop_kinematics [of pr cv m c ps] by simp
  ultimately show ?thesis
    by (rule list_all_inside_kinematics [rotated])
qed

lemma drawLoop_length: "length (snd (drawLoop pr cv m c ps)) = length ps"
  using drawLoop_kinematics [of pr cv m c ps] map_eq_imp_length_eq by fastforce

lemma particlesRef_requestAnimationFrame [simp]:
  "particlesRef (requestAnimationFrame w) = particlesRef w"
  by (simp add: requestAnimationFrame_def)

lemma canvasRef_requestAnimationFrame [simp]:
  "canvasRef (requestAnimationFrame w) = canvasRef w"
  by (simp add: requestAnimationFrame_def)

lemma particlesRef_draw:
  "particlesRef (draw pr w) =
     (case getContext2d w of
        None \<Rightarrow> particlesRef w
      | Some (cv, c) \<Rightarrow>
          snd (drawLoop pr cv (mousePositionRef w)
            (fillRect (c\<lparr>settings := (settings c)\<lparr>fillStyle :=
                         Colour (Rgba 0 0 0 (1 - trailLength (effects pr)))\<rparr>\<rparr>)
               0 0 (real (width cv)) (real (height cv)))
            (particlesRef w)))"
  by (cases "particlesRef w = []")
     (auto simp: draw_def Let_def split: option.splits prod.splits)

lemma arrayFrom_length: "length (arrayFrom n mk k) = n"
  by (induction n arbitrary: k) simp_all

lemma arrayFrom_all: "(\<And>k. P (mk k)) \<Longrightarrow> list_all P (arrayFrom n mk k)"
  by (induction n arbitrary: k) simp_all

lemma createParticle_inside:
  assumes "\<And>k. 0 \<le> randoms w k \<and> randoms w k < 1"
    and "width cv = innerWidth w" and "height cv = innerHeight w"
  shows "inside cv (createParticle pr w k)"
proof -
  have unit: "0 \<le> r \<Longrightarrow> r < 1 \<Longrightarrow> 0 \<le> r * real n \<and> r * real n \<le> real n" for r n
    by (simp add: mult_left_le_one_le mult.commute)
  from assms(1) [of k] assms(1) [of "k + 1"] show ?thesis
    using unit [of "randoms w k" "innerWidth w"] unit [of "randoms w (k + 1)" "innerHeight w"]
    by (simp add: inside_def createParticle_def assms(2,3))
qed

lemma bounce_clamps:
  "bounce cv q =
     q\<lparr>p_x := (if p_x q < 0 then 0 else if real (width cv) < p_x q then real (width cv) else p_x q),
       p_vx := (if p_x q < 0 then \<bar>p_vx q\<bar>
                else if real (width cv) < p_x q then - \<bar>p_vx q\<bar> else p_vx q),
       p_y := (if p_y q < 0 then 0 else if real (height cv) < p_y q then real (height cv) else p_y q),
       p_vy := (if p_y q < 0 then \<bar>p_vy q\<bar>
                else if real (height cv) < p_y q then - \<bar>p_vy q\<bar> else p_vy q)\<rparr>"
  by (simp add: bounce_def bounceX_def bounceY_def)

lemma bounce_inside: "inside cv q \<Longrightarrow> bounce cv q = q"
  by (simp add: bounce_def bounceX_def bounceY_def inside_def)

text \<open>
  Claim C2. The kinematic step of a tick ends with the boundary step, which clamps each
  coordinate on its own: \<open>x < 0\<close> goes to 0 with \<open>vx = |vx|\<close>, \<open>x > width\<close> goes to \<open>width\<close>
  with \<open>vx = -|vx|\<close>, likewise for \<open>y\<close> and \<open>height\<close>, and a particle inside is left as it
  is. So the step leaves the particle inside \<open>[0, width] \<times> [0, height]\<close>, wherever it was
  before, and after every tick that acquires its drawing context each particle of the list
  is inside (a tick keeps the number of particles). The initialising effect sizes the canvas
  to the window and creates every particle inside it, given that \<^verbatim>\<open>Math.random\<close>
  returns values in \<open>[0, 1)\<close>.
\<close>

theorem positions_stay_inside:
  "inside cv (stepParticle pr cv m p)
   \<and> stepParticle pr cv m p =
       bounce cv (integrate (speedFloor (if interactive pr then repulse pr m p else p)))
   \<and> bounce cv q =
       q\<lparr>p_x := (if p_x q < 0 then 0 else if real (width cv) < p_x q then real (width cv) else p_x q),
         p_vx := (if p_x q < 0 then \<bar>p_vx q\<bar>
                  else if real (width cv) < p_x q then - \<bar>p_vx q\<bar> else p_vx q),
         p_y := (if p_y q < 0 then 0 else if real (height cv) < p_y q then real (height cv) else p_y q),
         p_vy := (if p_y q < 0 then \<bar>p_vy q\<bar>
                  else if real (height cv) < p_y q then - \<bar>p_vy q\<bar> else p_vy q)\<rparr>
   \<and> (inside cv q \<longrightarrow> bounce cv q = q)
   \<and> (getContext2d w = Some (cv, c) \<longrightarrow> list_all (inside cv) (particlesRef (draw pr w)))
   \<and> length (particlesRef (draw pr w)) = length (particlesRef w)
   \<and> ((\<forall>k. 0 \<le> randoms w k \<and> randoms w k < 1) \<and> canvasRef w = Some cv \<longrightarrow>
        canvasRef (initEffect pr w) = Some (setCanvasSize (innerWidth w) (innerHeight w) cv)
        \<and> list_all (inside (setCanvasSize (innerWidth w) (innerHeight w) cv))
             (particlesRef (initEffect pr w)))"
proof -
  have tick: "getContext2d w = Some (cv, c) \<Longrightarrow> list_all (inside cv) (particlesRef (draw pr w))"
    by (simp add: particlesRef_draw drawLoop_inside)
  have len: "length (particlesRef (draw pr w)) = length (particlesRef w)"
    by (simp add: particlesRef_draw drawLoop_length split: option.splits)
  have init: "canvasRef (initEffect pr w) = Some (setCanvasSize (innerWidth w) (innerHeight w) cv)
        \<and> list_all (inside (setCanvasSize (innerWidth w) (innerHeight w) cv))
             (particlesRef (initEffect pr w))"
    if rnd: "\<forall>k. 0 \<le> randoms w k \<and> randoms w k < 1" and cv: "canvasRef w = Some cv"
  proof -
    have "inside (setCanvasSize (innerWidth w) (innerHeight w) cv) (createParticle pr w k)" for k
      using rnd by (intro createParticle_inside) (simp_all add: setCanvasSize_def)
    then have "list_all (inside (setCanvasSize (innerWidth w) (innerHeight w) cv))
        (arrayFrom (nat (particleCount pr)) (createParticle pr w) (drawn w))"
      by (rule arrayFrom_all)
    then show ?thesis
      using cv by (simp add: initEffect_def Let_def)
  qed
  have step: "stepParticle pr cv m p =
       bounce cv (integrate (speedFloor (if interactive pr then repulse pr m p else p)))"
    by (simp only: stepParticle_def)
  from tick len init step inside_stepParticle [of cv pr m p] bounce_clamps [of cv q]
    bounce_inside [of cv q]
  show ?thesis by blast
qed

theorem positions_stay_inside_witness:
  "getContext2d (runningWorld readyCanvas [strayParticle, fastParticle]) = Some (readyCanvas, blankCtx)
   \<and> \<not> inside readyCanvas (integrate strayParticle)
   \<and> stepParticle plainProps readyCanvas (0, 0) strayParticle =
       strayParticle\<lparr>p_x := 1000, p_y := 1000, p_vx := - 3, p_vy := - 4\<rparr>
   \<and> inside readyCanvas (stepParticle plainProps readyCanvas (0, 0) strayParticle)
   \<and> bounce readyCanvas (fastParticle\<lparr>p_x := - 2, p_y := - 1, p_vx := - 3, p_vy := - 4\<rparr>) =
       fastParticle\<lparr>p_x := 0, p_y := 0\<rparr>
   \<and> bounce readyCanvas (fastParticle\<lparr>p_x := 1002, p_y := 1001\<rparr>) =
       fastParticle\<lparr>p_x := 1000, p_y := 1000, p_vx := - 3, p_vy := - 4\<rparr>
   \<and> inside readyCanvas fastParticle
   \<and> bounce readyCanvas fastParticle = fastParticle
   \<and> list_all (inside readyCanvas)
       (particlesRef (draw plainProps (runningWorld readyCanvas [strayParticle, fastParticle])))
   \<and> length (particlesRef (draw plainProps (runningWorld readyCanvas [strayParticle, fastParticle]))) = 2
   \<and> (\<forall>k. 0 \<le> randoms (runningWorld readyCanvas []) k \<and> randoms (runningWorld readyCanvas []) k < 1)
   \<and> canvasRef (runningWorld readyCanvas []) = Some readyCanvas
   \<and> list_all (inside (setCanvasSize 1000 1000 readyCanvas))
       (particlesRef (initEffect plainProps (runningWorld readyCanvas [])))
   \<and> length (particlesRef (initEffect plainProps (runningWorld readyCanvas []))) = 100"
proof -
  let ?w = "runningWorld readyCanvas [strayParticle, fastParticle]"
  let ?v = "runningWorld readyCanvas []"
  let ?l = "fastParticle\<lparr>p_x := - 2, p_y := - 1, p_vx := - 3, p_vy := - 4\<rparr>"
  let ?r = "fastParticle\<lparr>p_x := 1002, p_y := 1001\<rparr>"
  have ctx: "getContext2d ?w = Some (readyCanvas, blankCtx)"
    by (simp add: getContext2d_def runningWorld_def readyCanvas_def)
  have rnd: "\<forall>k. 0 \<le> randoms ?v k \<and> randoms ?v k < 1"
    by (simp add: runningWorld_def halves_def)
  have cv: "canvasRef ?v = Some readyCanvas"
    by (simp add: runningWorld_def)
  have win: "innerWidth ?v = 1000" "innerHeight ?v = 1000"
    by (simp_all add: runningWorld_def)
  have out: "\<not> inside readyCanvas (integrate strayParticle)"
    by (simp add: inside_def integrate_def strayParticle_def readyCanvas_def)
  have ins: "inside readyCanvas fastParticle"
    by (simp add: inside_def fastParticle_def readyCanvas_def)
  note inst = positions_stay_inside [of readyCanvas plainProps "(0, 0)" strayParticle fastParticle ?w blankCtx]
  note left = positions_stay_inside [of readyCanvas plainProps "(0, 0)" strayParticle ?l ?w blankCtx]
  note right = positions_stay_inside [of readyCanvas plainProps "(0, 0)" strayParticle ?r ?w blankCtx]
  note init = positions_stay_inside [of readyCanvas plainProps "(0, 0)" strayParticle fastParticle ?v blankCtx]
  from inst ctx ins have "inside readyCanvas (stepParticle plainProps readyCanvas (0, 0) strayParticle)"
    and "list_all (inside readyCanvas) (particlesRef (draw plainProps ?w))"
    and "length (particlesRef (draw plainProps ?w)) = length (particlesRef ?w)"
    and "bounce readyCanvas fastParticle = fastParticle"
    by blast+
  moreover from left have "bounce readyCanvas ?l = fastParticle\<lparr>p_x := 0, p_y := 0\<rparr>"
    by (simp add: fastParticle_def readyCanvas_def)
  moreover from right have "bounce readyCanvas ?r =
      fastParticle\<lparr>p_x := 1000, p_y := 1000, p_vx := - 3, p_vy := - 4\<rparr>"
    by (simp add: fastParticle_def readyCanvas_def)
  moreover from init rnd cv
  have "list_all (inside (setCanvasSize (innerWidth ?v) (innerHeight ?v) readyCanvas))
      (particlesRef (initEffect plainProps ?v))"
    by blast
  moreover have "length (particlesRef (initEffect plainProps ?v)) = 100"
    by (simp add: initEffect_def Let_def arrayFrom_length runningWorld_def
        plainProps_def initialProps_def)
  moreover have "length (particlesRef ?w) = 2"
    by (simp add: runningWorld_def)
  ultimately show ?thesis
    using ctx rnd cv out ins step_strayParticle by (simp add: win)
qed

section \<open>Changing the particle count\<close>

lemma createParticle_cleanupEffect: "createParticle pr (cleanupEffect w) = createParticle pr w"
  by (rule ext) (simp add: createParticle_def cleanupEffect_def)

lemma particlesRef_reconfigure:
  assumes "canvasRef w = Some cv"
  shows "particlesRef (reconfigure pr w) =
    arrayFrom (nat (particleCount pr)) (createParticle pr w) (drawn w)"
proof -
  have "canvasRef (cleanupEffect w) = Some cv" "drawn (cleanupEffect w) = drawn w"
    using assms by (simp_all add: cleanupEffect_def)
  then show ?thesis
    by (simp add: reconfigure_def initEffect_def Let_def createParticle_cleanupEffect)
qed

lemma createParticle_particlesRef:
  "createParticle pr (w\<lparr>particlesRef := ps\<rparr>) = createParticle pr w"
  by (rule ext) (simp add: createParticle_def)

lemma arrayFrom_pos: "0 < n \<Longrightarrow> arrayFrom n mk k = mk k # arrayFrom (n - 1) mk (k + 5)"
  by (cases n) simp_all

text \<open>
  Claim C1, as amended. When the configured particle count changes (from 100 to 150, say)
  while the canvas is mounted, the initialising effect runs again and replaces the particle
  list by newly created particles: the new list does not depend on the old one, so the
  position and velocity of the earlier particles are not kept. After such a resize the
  length of the list equals the configured count (a count that is not negative).
\<close>

theorem reconfigure_recreates_particles:
  "canvasRef w = Some cv \<longrightarrow>
     particlesRef (reconfigure pr w) =
       arrayFrom (nat (particleCount pr)) (createParticle pr w) (drawn w)
     \<and> particlesRef (reconfigure pr (w\<lparr>particlesRef := ps\<rparr>)) = particlesRef (reconfigure pr w)
     \<and> length (particlesRef (reconfigure pr w)) = nat (particleCount pr)
     \<and> (0 \<le> particleCount pr \<longrightarrow> int (length (particlesRef (reconfigure pr w))) = particleCount pr)"
proof
  assume cv: "canvasRef w = Some cv"
  have new: "particlesRef (reconfigure pr w) =
      arrayFrom (nat (particleCount pr)) (createParticle pr w) (drawn w)"
    using particlesRef_reconfigure [OF cv] .
  have "canvasRef (w\<lparr>particlesRef := ps\<rparr>) = Some cv"
    using cv by simp
  from particlesRef_reconfigure [OF this, of pr]
  have old: "particlesRef (reconfigure pr (w\<lparr>particlesRef := ps\<rparr>)) = particlesRef (reconfigure pr w)"
    by (simp add: new createParticle_particlesRef)
  have len: "length (particlesRef (reconfigure pr w)) = nat (particleCount pr)"
    by (simp add: new arrayFrom_length)
  from new old len show "particlesRef (reconfigure pr w) =
       arrayFrom (nat (particleCount pr)) (createParticle pr w) (drawn w)
     \<and> particlesRef (reconfigure pr (w\<lparr>particlesRef := ps\<rparr>)) = particlesRef (reconfigure pr w)
     \<and> length (particlesRef (reconfigure pr w)) = nat (particleCount pr)
     \<and> (0 \<le> particleCount pr \<longrightarrow> int (length (particlesRef (reconfigure pr w))) = particleCount pr)"
    by simp
qed

theorem reconfigure_recreates_particles_witness:
  "canvasRef (runningWorld readyCanvas (replicate 100 fastParticle)) = Some readyCanvas
   \<and> length (particlesRef (runningWorld readyCanvas (replicate 100 fastParticle))) = 100
   \<and> 0 \<le> particleCount resizedProps
   \<and> length (particlesRef (reconfigure resizedProps
        (runningWorld readyCanvas (replicate 100 fastParticle)))) = 150
   \<and> particlesRef (reconfigure resizedProps (runningWorld readyCanvas (replicate 100 fastParticle))) =
       particlesRef (reconfigure resizedProps (runningWorld readyCanvas []))"
proof -
  let ?w = "runningWorld readyCanvas (replicate 100 fastParticle)"
  have cv: "canvasRef ?w = Some readyCanvas"
    by (simp add: runningWorld_def)
  have n: "particleCount resizedProps = 150"
    by (simp add: resizedProps_def)
  have drop: "?w\<lparr>particlesRef := []\<rparr> = runningWorld readyCanvas []"
    by (simp add: runningWorld_def)
  from reconfigure_recreates_particles [of ?w readyCanvas resizedProps "[]"] cv
  have "length (particlesRef (reconfigure resizedProps ?w)) = nat (particleCount resizedProps)"
    and "particlesRef (reconfigure resizedProps (?w\<lparr>particlesRef := []\<rparr>)) =
       particlesRef (reconfigure resizedProps ?w)"
    by blast+
  then show ?thesis
    using cv by (simp add: n drop) (simp add: runningWorld_def)
qed

text \<open>
  Against claim C1 as it was stated: a hundred particles at \<open>(3, 4)\<close>; after the count is
  set to 150 the first hundred entries of the list are new particles at \<open>(500, 500)\<close>.
\<close>

theorem reconfigure_discards_particles:
  "map kinematics (particlesRef (runningWorld readyCanvas (replicate 100 fastParticle))) =
     replicate 100 (3, 4, 3, 4)
   \<and> map kinematics (take 100 (particlesRef (reconfigure resizedProps
         (runningWorld readyCanvas (replicate 100 fastParticle))))) = replicate 100 (500, 500, 0, 0)
   \<and> map kinematics (take 100 (particlesRef (reconfigure resizedProps
         (runningWorld readyCanvas (replicate 100 fastParticle))))) \<noteq>
       map kinematics (particlesRef (runningWorld readyCanvas (replicate 100 fastParticle)))"
proof -
  let ?w = "runningWorld readyCanvas (replicate 100 fastParticle)"
  have old: "map kinematics (particlesRef ?w) = replicate 100 (3, 4, 3, 4)"
    by (simp add: runningWorld_def kinematics_def fastParticle_def)
  have kin: "kinematics (createParticle resizedProps ?w k) = (500, 500, 0, 0)" for k
    by (simp add: kinematics_def createParticle_def runningWorld_def halves_def)
  have fresh: "map kinematics (arrayFrom n (createParticle resizedProps ?w) k) =
      replicate n (500, 500, 0, 0)" for n k
    by (induction n arbitrary: k) (simp_all add: kin)
  have cv: "canvasRef ?w = Some readyCanvas" and d: "drawn ?w = 0"
    by (simp_all add: runningWorld_def)
  have "particlesRef (reconfigure resizedProps ?w) =
      arrayFrom 150 (createParticle resizedProps ?w) 0"
    using particlesRef_reconfigure [OF cv, of resizedProps] by (simp add: d resizedProps_def)
  then have new: "map kinematics (take 100 (particlesRef (reconfigure resizedProps ?w))) =
      replicate 100 (500, 500, 0, 0)"
    by (simp add: take_map [symmetric] fresh)
  have "replicate 100 (500::real, 500::real, 0::real, 0::real) \<noteq> replicate 100 (3, 4, 3, 4)"
    by (simp add: replicate_eq_replicate)
  with old new show ?thesis by simp
qed

section \<open>A tick without a drawing context\<close>

lemma draw_no_context: "getContext2d w = None \<Longrightarrow> draw pr w = w"
  by (simp add: draw_def)

lemma fold_fixed: "f w = w \<Longrightarrow> fold (\<lambda>_. f) xs w = w"
  by (induction xs) simp_all

lemma getContext2d_pending [simp]: "getContext2d (w\<lparr>pending := hs\<rparr>) = getContext2d w"
  by (simp add: getContext2d_def)

lemma runFrame_no_context: "getContext2d w = None \<Longrightarrow> runFrame pr w = w\<lparr>pending := []\<rparr>"
  unfolding runFrame_def by (rule fold_fixed) (simp add: draw_no_context)

text \<open>
  Claim C8, as amended. When the drawing context cannot be acquired at the start of a tick,
  \<^verbatim>\<open>draw\<close> returns at once: nothing is painted and no particle is advanced. It also
  returns before the request for the next frame, so after that tick no callback is pending
  and later frames do nothing: the per-frame chain stops rather than retrying.
\<close>

theorem draw_without_context_stops:
  "getContext2d w = None \<longrightarrow>
     draw pr w = w
     \<and> runFrame pr w = w\<lparr>pending := []\<rparr>
     \<and> particlesRef (runFrame pr w) = particlesRef w
     \<and> pending (runFrame pr w) = []
     \<and> runFrame pr (runFrame pr w) = runFrame pr w"
proof
  assume none: "getContext2d w = None"
  then have again: "getContext2d (w\<lparr>pending := []\<rparr>) = None" by simp
  show "draw pr w = w
     \<and> runFrame pr w = w\<lparr>pending := []\<rparr>
     \<and> particlesRef (runFrame pr w) = particlesRef w
     \<and> pending (runFrame pr w) = []
     \<and> runFrame pr (runFrame pr w) = runFrame pr w"
    using draw_no_context [OF none, of pr] runFrame_no_context [OF none, of pr]
      runFrame_no_context [OF again, of pr]
    by simp
qed

theorem draw_without_context_stops_witness:
  "getContext2d (runningWorld lostCanvas [fastParticle]) = None
   \<and> draw initialProps (runningWorld lostCanvas [fastParticle]) = runningWorld lostCanvas [fastParticle]
   \<and> particlesRef (runFrame initialProps (runningWorld lostCanvas [fastParticle])) = [fastParticle]
   \<and> pending (runFrame initialProps (runningWorld lostCanvas [fastParticle])) = []"
proof -
  have none: "getContext2d (runningWorld lostCanvas [fastParticle]) = None"
    by (simp add: getContext2d_def runningWorld_def lostCanvas_def)
  from draw_without_context_stops [of "runningWorld lostCanvas [fastParticle]" initialProps] none
  have "draw initialProps (runningWorld lostCanvas [fastParticle]) = runningWorld lostCanvas [fastParticle]"
    and "particlesRef (runFrame initialProps (runningWorld lostCanvas [fastParticle])) =
      particlesRef (runningWorld lostCanvas [fastParticle])"
    and "pending (runFrame initialProps (runningWorld lostCanvas [fastParticle])) = []"
    by blast+
  then show ?thesis
    using none by (simp add: runningWorld_def)
qed

text \<open>
  Against claim C8 as it was stated: one frame is pending and the context is lost; the frame
  runs, and afterwards none is pending, so nothing retries. With the context at hand the same
  tick does request the next frame.
\<close>

theorem lost_context_ends_chain:
  "getContext2d (runningWorld lostCanvas [fastParticle]) = None
   \<and> pending (runningWorld lostCanvas [fastParticle]) = [1]
   \<and> pending (runFrame initialProps (runningWorld lostCanvas [fastParticle])) = []
   \<and> pending (runFrame initialProps (runningWorld readyCanvas [fastParticle])) = [2]"
proof -
  have none: "getContext2d (runningWorld lostCanvas [fastParticle]) = None"
    by (simp add: getContext2d_def runningWorld_def lostCanvas_def)
  have "pending (runFrame initialProps (runningWorld lostCanvas [fastParticle])) = []"
    by (simp add: runFrame_no_context [OF none])
  moreover have "pending (runFrame initialProps (runningWorld readyCanvas [fastParticle])) = [2]"
    by (simp add: runFrame_def runningWorld_def draw_def getContext2d_def readyCanvas_def
        requestAnimationFrame_def Let_def split: prod.splits)
  ultimately show ?thesis
    using none by (simp add: runningWorld_def)
qed

end
